theory Spec2Isabelle
  imports Main "HOL-Library.Word"
begin

section \<open>The HTTP/2 client transport (transport.go)\<close>

text \<open>
  A shallow embedding of \<^verbatim>\<open>transport.go\<close>: the connection pool, the admission test,
  the request executor, the sticky writer and the reader loop.  Go pointers are addresses
  into explicit stores, Go maps are partial functions (or association lists where the
  code ranges over them), \<^verbatim>\<open>uint32\<close> is \<open>32 word\<close>, an \<^verbatim>\<open>error\<close> that may be
  \<^verbatim>\<open>nil\<close> is an \<open>option\<close>.
\<close>

subsection \<open>Data\<close>

type_synonym u32 = "32 word"
type_synonym bytes = "8 word list"

text \<open>The error values the transport produces or passes on.\<close>

datatype error =
    errClientConnClosed            \<comment> \<open>\<^verbatim>\<open>http2: client conn is closed\<close>\<close>
  | errUnsupportedScheme           \<comment> \<open>\<^verbatim>\<open>http2: unsupported scheme and no Fallback\<close>\<close>
  | errMaxRetry                    \<comment> \<open>\<^verbatim>\<open>http2: reach max retry request times=3\<close>\<close>
  | ConnectionError u32            \<comment> \<open>a connection error carrying an error code\<close>
  | EOF
  | ErrUnexpectedEOF
  | OtherError string              \<comment> \<open>errors of the socket, the dialer, the frame codec, the proxy\<close>

definition ErrCodeProtocol :: u32 where
  "ErrCodeProtocol = 1"


text \<open>
  Modelled from the spec: the frame type is declared in the frame codec, which is not part
  of \<^verbatim>\<open>transport.go\<close>.  The spec lists the tagged union (HEADERS, CONTINUATION, DATA,
  SETTINGS, WINDOW_UPDATE, GOAWAY, RST_STREAM) and the accessors \<^verbatim>\<open>Header().StreamID\<close>,
  \<^verbatim>\<open>StreamEnded()\<close>, \<^verbatim>\<open>HeadersEnded()\<close>, \<^verbatim>\<open>HeaderBlockFragment()\<close>, \<^verbatim>\<open>Data()\<close>
  and \<^verbatim>\<open>ErrCode\<close>.
\<close>

datatype payload =
    Headers bool bool bytes        \<comment> \<open>END_STREAM, END_HEADERS, header block fragment\<close>
  | Continuation bool bytes        \<comment> \<open>END_HEADERS, header block fragment\<close>
  | Data bool bytes                \<comment> \<open>END_STREAM, data\<close>
  | GoAway u32                     \<comment> \<open>ErrCode\<close>
  | Settings
  | WindowUpdate
  | RSTStream

datatype frame = Frame (StreamID: u32) (body: payload)

fun isContinuation :: "frame \<Rightarrow> bool" where
  "isContinuation (Frame _ (Continuation _ _)) = True"
| "isContinuation _ = False"

text \<open>\<^verbatim>\<open>f.(streamEnder)\<close> followed by \<^verbatim>\<open>StreamEnded()\<close>; false for the other kinds.\<close>

fun StreamEnded :: "frame \<Rightarrow> bool" where
  "StreamEnded (Frame _ (Headers es _ _)) = es"
| "StreamEnded (Frame _ (Data es _)) = es"
| "StreamEnded _ = False"

text \<open>\<^verbatim>\<open>f.(headersEnder)\<close>: \<open>None\<close> when the frame kind carries no END_HEADERS flag.\<close>

fun HeadersEnded :: "frame \<Rightarrow> bool option" where
  "HeadersEnded (Frame _ (Headers _ eh _)) = Some eh"
| "HeadersEnded (Frame _ (Continuation eh _)) = Some eh"
| "HeadersEnded _ = None"

text \<open>
  The response under construction (\<^verbatim>\<open>http.Response\<close>, the fields the transport
  touches).  \<open>Body\<close> is the address of the pipe whose read end is the body.
\<close>

record response =
  Status :: string
  StatusCode :: int
  Proto :: string
  ProtoMajor :: int
  Header :: "(string \<times> string list) list"
  Body :: "nat option"
  ContentLength :: int
  hasRequest :: bool
  hasTLS :: bool

text \<open>The calls made on the framer and on the buffered writer, in order.\<close>

datatype wire_op =
    WriteHeaders u32 bytes bool bool     \<comment> \<open>StreamID, BlockFragment, EndStream, EndHeaders\<close>
  | WriteContinuation u32 bool bytes     \<comment> \<open>streamID, endHeaders, fragment\<close>
  | WriteData u32 bool bytes             \<comment> \<open>streamID, endStream, data\<close>
  | WriteRSTStream u32 u32               \<comment> \<open>streamID, error code\<close>
  | WriteSettings
  | WriteSettingsAck
  | WriteWindowUpdate u32 u32            \<comment> \<open>streamID, increment\<close>
  | Flush

text \<open>
  \<^verbatim>\<open>clientConn\<close>.  \<open>streams\<close> maps a stream id to the address of its
  \<^verbatim>\<open>clientStream\<close>; \<open>henc\<close> is the list of fields written to the HPACK encoder so
  far (the encoder's state), \<open>wire\<close> the calls made on \<^verbatim>\<open>fr\<close> and \<^verbatim>\<open>bw\<close>,
  \<open>socket\<close> the bytes that \<^verbatim>\<open>tconn\<close> has accepted from the sticky writer.
\<close>

record clientConn =
  connKey :: "string list"
  readerErr :: "error option"
  nextRes :: "response option"
  closed :: bool
  goAway :: "frame option"
  streams :: "u32 \<rightharpoonup> nat"
  nextStreamID :: u32
  werr :: "error option"
  maxFrameSize :: u32
  maxConcurrentStreams :: u32
  initialWindowSize :: u32
  hbuf :: bytes
  henc :: "(string \<times> string) list"
  wire :: "wire_op list"
  socket :: bytes
  tconnClosed :: bool

subsection \<open>Admission\<close>

text \<open>
  \<^verbatim>\<open>canTakeNewRequest\<close>: \<^verbatim>\<open>len(cc.streams)\<close> is the number of keys of the map; both
  sides of the second comparison are converted to \<^verbatim>\<open>int64\<close>, so it is a comparison of
  integers; the third is a comparison of \<^verbatim>\<open>uint32\<close> values.
\<close>

definition canTakeNewRequest :: "clientConn \<Rightarrow> bool" where
  "canTakeNewRequest cc =
     (goAway cc = None \<and>
      int (card (dom (streams cc)) + 1) < uint (maxConcurrentStreams cc) \<and>
      nextStreamID cc < 2147483647)"

definition setGoAway :: "frame \<Rightarrow> clientConn \<Rightarrow> clientConn" where
  "setGoAway f cc = cc\<lparr>goAway := Some f\<rparr>"

text \<open>A connection as \<^verbatim>\<open>newClientConn\<close> builds it, before the peer's settings are applied.\<close>

definition freshConn :: "string \<Rightarrow> clientConn" where
  "freshConn key =
     \<lparr>connKey = [key], readerErr = None, nextRes = None, closed = False, goAway = None,
      streams = Map.empty, nextStreamID = 1, werr = None, maxFrameSize = 16384,
      maxConcurrentStreams = 1000, initialWindowSize = 65535, hbuf = [], henc = [],
      wire = [], socket = [], tconnClosed = False\<rparr>"

subsection \<open>Streams, the pool and the stores\<close>

text \<open>
  \<^verbatim>\<open>resAndError\<close>; \<open>rcc\<close> and \<open>rcs\<close> are the addresses in \<^verbatim>\<open>cc\<close> and \<^verbatim>\<open>cs\<close>.  \<^verbatim>\<open>clientStream\<close>: \<open>resc\<close> is
  the content of the channel of capacity 1, \<open>pipe\<close> the address of the pipe behind
  \<^verbatim>\<open>pr\<close> and \<^verbatim>\<open>pw\<close> (\<open>None\<close> while both are nil).
\<close>

record resAndError =
  res :: "response option"
  err :: "error option"
  rcc :: "nat option"
  rcs :: "nat option"

record clientStream =
  ID :: u32
  resc :: "resAndError list"
  pipe :: "nat option"

text \<open>\<^verbatim>\<open>dataFrameWriter\<close>; \<open>dw_cc\<close> and \<open>dw_cs\<close> are the addresses in \<^verbatim>\<open>cc\<close> and \<^verbatim>\<open>cs\<close>.\<close>

record dataFrameWriter =
  dw_cc :: nat
  dw_cs :: nat
  totalSize :: int

text \<open>What the transport does to pipes, channels, sockets and the pool, in order.\<close>

datatype event =
    PipeWrite nat bytes
  | PipeWriterClose nat
  | PipeWriterCloseWithError nat "error option"
  | PipeReaderCloseWithError nat error
  | CloseReaderDone nat
  | SocketClose nat
  | PoolRemove nat

text \<open>
  The \<^verbatim>\<open>Transport\<close> with the objects its pointers reach: \<open>conns\<close> is
  \<^verbatim>\<open>t.conns\<close> (a key with no entry, or a nil map, reads as the empty sequence),
  \<open>conn_at\<close> and \<open>stream_at\<close> are the stores of \<^verbatim>\<open>clientConn\<close> and
  \<^verbatim>\<open>clientStream\<close> objects, the counters give the next unused addresses,
  \<open>copiers\<close> are the writers of the body copiers started so far.
\<close>

record world =
  conns :: "string \<rightharpoonup> nat list"
  conn_at :: "nat \<Rightarrow> clientConn"
  next_conn :: nat
  stream_at :: "nat \<Rightarrow> clientStream"
  next_stream :: nat
  next_pipe :: nat
  copiers :: "dataFrameWriter list"
  trace :: "event list"

definition connsOf :: "world \<Rightarrow> string \<Rightarrow> nat list" where
  "connsOf w key = (case conns w key of None \<Rightarrow> [] | Some vv \<Rightarrow> vv)"

definition updConn :: "nat \<Rightarrow> (clientConn \<Rightarrow> clientConn) \<Rightarrow> world \<Rightarrow> world" where
  "updConn a f w = w\<lparr>conn_at := (conn_at w)(a := f (conn_at w a))\<rparr>"

definition emit :: "event list \<Rightarrow> world \<Rightarrow> world" where
  "emit es w = w\<lparr>trace := trace w @ es\<rparr>"

text \<open>\<^verbatim>\<open>filterOutClientConn\<close>: the loop appends to \<open>out\<close> every element but \<open>exclude\<close>.\<close>

fun filterOut_loop :: "nat list \<Rightarrow> nat \<Rightarrow> nat list \<Rightarrow> nat list" where
  "filterOut_loop [] exclude out = out"
| "filterOut_loop (v # vs) exclude out =
     filterOut_loop vs exclude (if v \<noteq> exclude then out @ [v] else out)"

definition filterOutClientConn :: "nat list \<Rightarrow> nat \<Rightarrow> nat list" where
  "filterOutClientConn inp exclude = filterOut_loop inp exclude []"

text \<open>\<^verbatim>\<open>removeClientConn\<close>: the loop over \<^verbatim>\<open>cc.connKey\<close>.\<close>

fun removeKeys :: "string list \<Rightarrow> nat \<Rightarrow> (string \<rightharpoonup> nat list) \<Rightarrow> (string \<rightharpoonup> nat list)" where
  "removeKeys [] a m = m"
| "removeKeys (key # keys) a m =
     (case m key of
        None \<Rightarrow> removeKeys keys a m
      | Some vv \<Rightarrow>
          (let newList = filterOutClientConn vv a in
           if length newList > 0 then removeKeys keys a (m(key \<mapsto> newList))
           else removeKeys keys a (m(key := None))))"

definition removeClientConn :: "nat \<Rightarrow> world \<Rightarrow> world" where
  "removeClientConn a w =
     emit [PoolRemove a] (w\<lparr>conns := removeKeys (connKey (conn_at w a)) a (conns w)\<rparr>)"

text \<open>\<^verbatim>\<open>net.JoinHostPort\<close>: a host with a colon is put in brackets.\<close>

definition JoinHostPort :: "string \<Rightarrow> string \<Rightarrow> string" where
  "JoinHostPort host port =
     (if CHR '':'' \<in> set host then ''['' @ host @ '']:'' @ port else host @ '':'' @ port)"

text \<open>
  \<^verbatim>\<open>newClientConn\<close>.  Dialling, the TLS handshake, the preface and the read of the
  peer's SETTINGS frame are input: \<open>Inl e\<close> is a failure of any step before the reader
  is spawned, \<open>Inr ss\<close> the settings of the peer's SETTINGS frame, applied in order by
  \<^verbatim>\<open>ForeachSetting\<close>.  The calls on the framer are those of the handshake: the
  settings, the window update of \<open>2^30\<close> on stream 0, the acknowledgement.
\<close>

datatype settingID =
  SettingMaxFrameSize | SettingMaxConcurrentStreams | SettingInitialWindowSize | SettingOther nat

fun applySetting :: "clientConn \<Rightarrow> settingID \<times> u32 \<Rightarrow> clientConn" where
  "applySetting c (SettingMaxFrameSize, v) = c\<lparr>maxFrameSize := v\<rparr>"
| "applySetting c (SettingMaxConcurrentStreams, v) = c\<lparr>maxConcurrentStreams := v\<rparr>"
| "applySetting c (SettingInitialWindowSize, v) = c\<lparr>initialWindowSize := v\<rparr>"
| "applySetting c (SettingOther _, v) = c"

definition newClientConn ::
  "error + (settingID \<times> u32) list \<Rightarrow> string \<Rightarrow> world \<Rightarrow> (error + nat) \<times> world" where
  "newClientConn dial key w =
     (case dial of
        Inl e \<Rightarrow> (Inl e, w)
      | Inr ss \<Rightarrow>
          (Inr (next_conn w),
           w\<lparr>conn_at := (conn_at w)(next_conn w :=
                 (foldl applySetting (freshConn key) ss)
                   \<lparr>wire := [WriteSettings, WriteWindowUpdate 0 1073741824, Flush,
                             WriteSettingsAck, Flush]\<rparr>),
             next_conn := Suc (next_conn w)\<rparr>))"

text \<open>\<^verbatim>\<open>getClientConn\<close>: the range loop over \<^verbatim>\<open>t.conns[key]\<close>, then the dial.\<close>

fun firstTaker :: "world \<Rightarrow> nat list \<Rightarrow> nat option" where
  "firstTaker w [] = None"
| "firstTaker w (a # as) =
     (if canTakeNewRequest (conn_at w a) then Some a else firstTaker w as)"

definition getClientConn ::
  "error + (settingID \<times> u32) list \<Rightarrow> string \<Rightarrow> string \<Rightarrow> world \<Rightarrow> (error + nat) \<times> world" where
  "getClientConn dial host port w =
     (let key = JoinHostPort host port in
      case firstTaker w (connsOf w key) of
        Some a \<Rightarrow> (Inr a, w)
      | None \<Rightarrow>
          (case newClientConn dial key w of
             (Inl e, w') \<Rightarrow> (Inl e, w')
           | (Inr a, w') \<Rightarrow> (Inr a, w'\<lparr>conns := (conns w')(key \<mapsto> connsOf w' key @ [a])\<rparr>)))"

text \<open>\<^verbatim>\<open>closeIfIdle\<close>: a connection with no stream is marked closed and its socket closed.\<close>

definition closeIfIdle :: "nat \<Rightarrow> world \<Rightarrow> world" where
  "closeIfIdle a w =
     (if card (dom (streams (conn_at w a))) > 0 then w
      else emit [SocketClose a] (updConn a (\<lambda>c. c\<lparr>closed := True, tconnClosed := True\<rparr>) w))"

text \<open>An empty transport, and one connection placed in it by hand.\<close>

definition emptyStream :: clientStream where
  "emptyStream = \<lparr>ID = 0, resc = [], pipe = None\<rparr>"

definition emptyWorld :: world where
  "emptyWorld =
     \<lparr>conns = Map.empty, conn_at = (\<lambda>_. freshConn []), next_conn = 0,
      stream_at = (\<lambda>_. emptyStream), next_stream = 0, next_pipe = 0, copiers = [], trace = []\<rparr>"

definition worldWith :: "string \<Rightarrow> clientConn \<Rightarrow> world" where
  "worldWith key c =
     emptyWorld\<lparr>conns := [key \<mapsto> [0]], conn_at := (conn_at emptyWorld)(0 := c), next_conn := 1\<rparr>"

subsection \<open>The sticky writer and the calls on the framer\<close>

text \<open>
  \<^verbatim>\<open>stickyErrWriter.Write\<close>; \<^verbatim>\<open>sew.err\<close> points to \<^verbatim>\<open>cc.werr\<close>, \<^verbatim>\<open>sew.w\<close> is the
  socket.  The answer \<open>(n, e)\<close> of the socket to the write of \<open>p\<close> is input; \<open>socket\<close>
  collects the bytes the socket accepted.  With an error latched in \<^verbatim>\<open>cc.werr\<close> the
  socket is not called.
\<close>

definition stickyErrWriter_Write ::
  "bytes \<times> nat \<times> error option \<Rightarrow> clientConn \<Rightarrow> (nat \<times> error option) \<times> clientConn" where
  "stickyErrWriter_Write pr c =
     (case pr of (p, n, e) \<Rightarrow>
        if werr c \<noteq> None then ((0, werr c), c)
        else ((n, e), c\<lparr>socket := socket c @ take n p, werr := e\<rparr>))"

text \<open>
  The framer and the buffered writer are not part of \<^verbatim>\<open>transport.go\<close>.  One call on
  them is described by its input \<open>(ws, r)\<close>: \<open>ws\<close> are the writes the buffered writer
  passes down to the sticky writer during the call, each with the socket's answer, and
  \<open>r\<close> is the error the call returns.  \<open>frcall\<close> logs the call, runs the sticky writer on
  \<open>ws\<close> in order and returns \<open>r\<close>.
\<close>

type_synonym io = "(bytes \<times> nat \<times> error option) list \<times> error option"

definition frcall :: "wire_op \<Rightarrow> io \<Rightarrow> clientConn \<Rightarrow> error option \<times> clientConn" where
  "frcall op i c =
     (snd i, foldl (\<lambda>c' pr. snd (stickyErrWriter_Write pr c')) (c\<lparr>wire := wire c @ [op]\<rparr>) (fst i))"

subsection \<open>Streams of a connection\<close>

text \<open>\<^verbatim>\<open>newStream\<close>: a new \<^verbatim>\<open>clientStream\<close> object, registered under the next id.\<close>

definition newStream :: "nat \<Rightarrow> world \<Rightarrow> nat \<times> world" where
  "newStream a w =
     (let c = conn_at w a; sa = next_stream w in
      (sa,
       w\<lparr>stream_at := (stream_at w)(sa := \<lparr>ID = nextStreamID c, resc = [], pipe = None\<rparr>),
         next_stream := Suc sa,
         conn_at := (conn_at w)(a := c\<lparr>nextStreamID := nextStreamID c + 2,
                                       streams := (streams c)(nextStreamID c \<mapsto> sa)\<rparr>)\<rparr>))"

text \<open>\<^verbatim>\<open>streamByID\<close>: \<open>None\<close> is the nil stream.\<close>

definition streamByID :: "u32 \<Rightarrow> bool \<Rightarrow> clientConn \<Rightarrow> nat option \<times> clientConn" where
  "streamByID sid andRemove c =
     (streams c sid, if andRemove then c\<lparr>streams := (streams c)(sid := None)\<rparr> else c)"

subsection \<open>Header encoding\<close>

text \<open>
  The request (\<^verbatim>\<open>http.Request\<close>, the fields the transport reads).  \<open>ReqHeader\<close> lists
  the entries of \<^verbatim>\<open>req.Header\<close> in the order in which the range loop visits them.
\<close>

record request =
  Method :: string
  URL_Scheme :: string
  URL_Host :: string
  Host :: string
  RequestURI :: string
  ReqHeader :: "(string \<times> string list) list"
  ReqContentLength :: int

text \<open>
  The library functions the executor calls while it encodes headers: \<open>WriteField\<close> is
  the HPACK encoder (the bytes it appends to \<^verbatim>\<open>hbuf\<close> for a field, given the fields it
  has encoded before), \<open>ToLower\<close> is \<^verbatim>\<open>strings.ToLower\<close>.
\<close>

record encoders =
  WriteField :: "(string \<times> string) list \<Rightarrow> string \<times> string \<Rightarrow> bytes"
  ToLower :: "string \<Rightarrow> string"

text \<open>\<^verbatim>\<open>writeHeader\<close>.\<close>

definition writeHeader :: "encoders \<Rightarrow> string \<Rightarrow> string \<Rightarrow> clientConn \<Rightarrow> clientConn" where
  "writeHeader enc name v c =
     c\<lparr>hbuf := hbuf c @ WriteField enc (henc c) (name, v), henc := henc c @ [(name, v)]\<rparr>"

fun writeValues :: "encoders \<Rightarrow> string \<Rightarrow> string list \<Rightarrow> clientConn \<Rightarrow> clientConn" where
  "writeValues enc lowKey [] c = c"
| "writeValues enc lowKey (v # vv) c = writeValues enc lowKey vv (writeHeader enc lowKey v c)"

fun writeEntries :: "encoders \<Rightarrow> (string \<times> string list) list \<Rightarrow> clientConn \<Rightarrow> clientConn" where
  "writeEntries enc [] c = c"
| "writeEntries enc ((k, vv) # kvs) c =
     (let lowKey = ToLower enc k in
      if lowKey = ''host'' then writeEntries enc kvs c
      else writeEntries enc kvs (writeValues enc lowKey vv c))"

definition encodeHeaders :: "encoders \<Rightarrow> request \<Rightarrow> clientConn \<Rightarrow> bytes \<times> clientConn" where
  "encodeHeaders enc req c =
     (let c0 = c\<lparr>hbuf := []\<rparr>;
          host = (if Host req = '''' then URL_Host req else Host req);
          path = (if RequestURI req = '''' then ''/'' else RequestURI req);
          c1 = writeHeader enc '':authority'' host c0;
          c2 = writeHeader enc '':method'' (Method req) c1;
          c3 = writeHeader enc '':path'' path c2;
          c4 = writeHeader enc '':scheme'' (URL_Scheme req) c3;
          c5 = writeEntries enc (ReqHeader req) c4
      in (hbuf c5, c5))"

subsection \<open>Request execution\<close>

text \<open>
  How a call ends: it returns, it panics (a nil dereference, an explicit \<^verbatim>\<open>panic\<close>), or
  it never returns (a receive or a send that blocks for ever, a loop that does not end).
\<close>

datatype 'a ending = Returned 'a | Panicked | Stuck

text \<open>
  The loop of \<^verbatim>\<open>do\<close> that cuts the header block into frames.  \<open>env k\<close> is the input of
  the \<open>k\<close>-th call on the framer.  The loop need not terminate (a peer may have set
  \<^verbatim>\<open>maxFrameSize\<close> to 0), so the result is an option and \<open>None\<close> is a loop that never
  ends.
\<close>

partial_function (option) writeHeaderFrames ::
  "(nat \<Rightarrow> io) \<Rightarrow> u32 \<Rightarrow> bool \<Rightarrow> bytes \<Rightarrow> bool \<Rightarrow> nat \<Rightarrow> clientConn \<Rightarrow> (nat \<times> clientConn) option" where
  "writeHeaderFrames env sid hasBody hdrs first k c =
     (if length hdrs > 0 then
        (let chunk = (if length hdrs > unat (maxFrameSize c)
                      then take (unat (maxFrameSize c)) hdrs else hdrs);
             hdrs' = drop (length chunk) hdrs;
             endHeaders = (length hdrs' = 0)
         in if first
            then writeHeaderFrames env sid hasBody hdrs' False (Suc k)
                   (snd (frcall (WriteHeaders sid chunk (\<not> hasBody) endHeaders) (env k) c))
            else writeHeaderFrames env sid hasBody hdrs' first (Suc k)
                   (snd (frcall (WriteContinuation sid endHeaders chunk) (env k) c)))
      else Some (k, c))"

text \<open>
  \<^verbatim>\<open>dataFrameWriter.Write\<close>, with the inputs of its two calls on the framer.  The
  receiver is a value, so the decrement of \<^verbatim>\<open>totalSize\<close> changes the callee's copy only
  and the writer of the caller stays as it is.
\<close>

definition dataFrameWriter_Write ::
  "dataFrameWriter \<Rightarrow> bytes \<Rightarrow> io \<Rightarrow> io \<Rightarrow> world \<Rightarrow> (nat \<times> error option) \<times> world" where
  "dataFrameWriter_Write dw p i1 i2 w =
     (let size64 = int (length p);
          endStream = (size64 \<ge> totalSize dw);
          (r1, c1) = frcall (WriteData (ID (stream_at w (dw_cs dw))) endStream p) i1
                       (conn_at w (dw_cc dw))
      in if r1 \<noteq> None
         then ((0, r1), w\<lparr>conn_at := (conn_at w)(dw_cc dw := c1\<lparr>werr := r1\<rparr>)\<rparr>)
         else if endStream
         then (let (r2, c2) = frcall Flush i2 c1
               in if r2 \<noteq> None
                  then ((0, r2), w\<lparr>conn_at := (conn_at w)(dw_cc dw := c2\<lparr>werr := r2\<rparr>)\<rparr>)
                  else ((length p, r2), w\<lparr>conn_at := (conn_at w)(dw_cc dw := c2)\<rparr>))
         else ((length p, r1), w\<lparr>conn_at := (conn_at w)(dw_cc dw := c1)\<rparr>))"

definition hasBodyOf :: "request \<Rightarrow> bool" where
  "hasBodyOf req = (ReqContentLength req > 0 \<or> Method req = ''CONNECT'')"

definition errResult :: "error \<Rightarrow> resAndError" where
  "errResult e = \<lparr>res = None, err = Some e, rcc = None, rcs = None\<rparr>"

text \<open>
  \<^verbatim>\<open>do\<close> up to the point where it either returns an error or starts to wait on the
  channel of its stream: the check of \<^verbatim>\<open>closed\<close>, the new stream, the header frames,
  the flush, the body copier.  The result is \<open>Inl\<close> the \<^verbatim>\<open>resAndError\<close> returned at
  once, or \<open>Inr\<close> the address of the stream to wait on.  A copier started with
  \<^verbatim>\<open>go io.Copy\<close> is recorded by its writer in \<open>copiers\<close>.
\<close>

definition do_send ::
  "encoders \<Rightarrow> (nat \<Rightarrow> io) \<Rightarrow> request \<Rightarrow> nat \<Rightarrow> world \<Rightarrow> ((resAndError + nat) \<times> world) option" where
  "do_send enc env req a w =
     (if closed (conn_at w a) then Some (Inl (errResult errClientConnClosed), w)
      else
        (let (sa, w1) = newStream a w;
             sid = ID (stream_at w1 sa);
             hasBody = hasBodyOf req;
             (hdrs, c2) = encodeHeaders enc req (conn_at w1 a)
         in case writeHeaderFrames env sid hasBody hdrs True 0 c2 of
              None \<Rightarrow> None
            | Some (k, c3) \<Rightarrow>
                (let c4 = snd (frcall Flush (env k) c3);
                     w2 = w1\<lparr>conn_at := (conn_at w1)(a := c4)\<rparr>;
                     w3 = (if hasBody
                           then w2\<lparr>copiers := copiers w2 @
                                  [\<lparr>dw_cc = a, dw_cs = sa, totalSize = ReqContentLength req\<rparr>]\<rparr>
                           else w2)
                 in case werr c4 of
                      Some e \<Rightarrow> Some (Inl (errResult e), w3)
                    | None \<Rightarrow> Some (Inr sa, w3))))"

text \<open>
  \<^verbatim>\<open>do\<close>: \<open>wait\<close> is what the other tasks (the reader, the copier) do to the world
  until the receive from \<^verbatim>\<open>cs.resc\<close> is served; a channel still empty then is a
  receive that blocks for ever.
\<close>

definition do ::
  "encoders \<Rightarrow> (nat \<Rightarrow> io) \<Rightarrow> (world \<Rightarrow> world) \<Rightarrow> request \<Rightarrow> nat \<Rightarrow> world \<Rightarrow> (resAndError \<times> world) ending" where
  "do enc env wait req a w =
     (case do_send enc env req a w of
        None \<Rightarrow> Stuck
      | Some (Inl re, w') \<Rightarrow> Returned (re, w')
      | Some (Inr sa, w') \<Rightarrow>
          (let w'' = wait w' in
           case resc (stream_at w'' sa) of
             [] \<Rightarrow> Stuck
           | re # rest \<Rightarrow>
               Returned (re, w''\<lparr>stream_at := (stream_at w'')(sa := (stream_at w'' sa)\<lparr>resc := rest\<rparr>)\<rparr>)))"

text \<open>
  \<^verbatim>\<open>clientConn.roundTrip\<close>; \<open>pint\<close> is the value \<^verbatim>\<open>strconv.ParseInt\<close> returns for a
  string.  A nil \<^verbatim>\<open>cc.nextRes\<close>, a nil response or an empty value list is dereferenced.
\<close>

definition roundTrip ::
  "encoders \<Rightarrow> (nat \<Rightarrow> io) \<Rightarrow> (world \<Rightarrow> world) \<Rightarrow> (string \<Rightarrow> int) \<Rightarrow> request \<Rightarrow> nat \<Rightarrow> world
     \<Rightarrow> ((error + response) \<times> world) ending" where
  "roundTrip enc env wait pint req a w =
     (case do enc env wait req a w of
        Stuck \<Rightarrow> Stuck
      | Panicked \<Rightarrow> Panicked
      | Returned (re, w1) \<Rightarrow>
          (case err re of
             Some e \<Rightarrow> Returned (Inl e, w1)
           | None \<Rightarrow>
               (case nextRes (conn_at w1 a) of
                  None \<Rightarrow> Panicked
                | Some nr \<Rightarrow>
                    (case map_of (Header nr) ''Content-Length'' of
                       None \<Rightarrow>
                         (case res re of
                            None \<Rightarrow> Panicked
                          | Some r \<Rightarrow> Returned (Inr (r\<lparr>hasRequest := True, hasTLS := True\<rparr>), w1))
                     | Some cl \<Rightarrow>
                         (case cl of
                            [] \<Rightarrow> Panicked
                          | c0 # _ \<Rightarrow>
                              (case res re of
                                 None \<Rightarrow> Panicked
                               | Some r \<Rightarrow>
                                   Returned
                                     (Inr ((if c0 \<noteq> ''0'' then r\<lparr>ContentLength := pint c0\<rparr> else r)
                                             \<lparr>hasRequest := True, hasTLS := True\<rparr>), w1)))))))"

subsection \<open>The transport's round trip\<close>

definition shouldRetryRequest :: "error option \<Rightarrow> bool" where
  "shouldRetryRequest e = (e = Some errClientConnClosed)"

definition maxRetryRequest :: nat where
  "maxRetryRequest = 3"

text \<open>
  What the surroundings contribute to one attempt: what the other tasks do to the world
  before the attempt (\<open>at_before\<close>), the outcome of a dial (\<open>at_dial\<close>), the inputs of
  the calls on the framer (\<open>at_io\<close>), and what the other tasks do while \<^verbatim>\<open>do\<close> waits
  for the response (\<open>at_wait\<close>).
\<close>

record attempt =
  at_before :: "world \<Rightarrow> world"
  at_dial :: "error + (settingID \<times> u32) list"
  at_io :: "nat \<Rightarrow> io"
  at_wait :: "world \<Rightarrow> world"

text \<open>
  The retry loop of \<^verbatim>\<open>RoundTrip\<close>, from iteration \<open>i\<close>.  Beside the result it returns a
  record of the attempts made, which the code does not keep: for each call of
  \<^verbatim>\<open>cc.roundTrip\<close> the connection, its \<^verbatim>\<open>closed\<close> flag when the request was placed, and
  the result of the call.
\<close>

type_synonym attempts = "(nat \<times> bool \<times> (error + response)) list"

function RoundTrip_loop ::
  "encoders \<Rightarrow> (string \<Rightarrow> int) \<Rightarrow> (nat \<Rightarrow> attempt) \<Rightarrow> request \<Rightarrow> string \<Rightarrow> string \<Rightarrow> nat \<Rightarrow> attempts \<Rightarrow> world
     \<Rightarrow> ((error + response) \<times> world \<times> attempts) ending" where
  "RoundTrip_loop enc pint E req host port i tried w =
     (if i < maxRetryRequest then
        (case getClientConn (at_dial (E i)) host port (at_before (E i) w) of
           (Inl e, w1) \<Rightarrow> Returned (Inl e, w1, tried)
         | (Inr a, w1) \<Rightarrow>
             (case roundTrip enc (at_io (E i)) (at_wait (E i)) pint req a w1 of
                Stuck \<Rightarrow> Stuck
              | Panicked \<Rightarrow> Panicked
              | Returned (r, w2) \<Rightarrow>
                  (let er = (case r of Inl e \<Rightarrow> Some e | Inr _ \<Rightarrow> None);
                       tried' = tried @ [(a, closed (conn_at w1 a), r)]
                   in if shouldRetryRequest er \<and> i < maxRetryRequest
                      then RoundTrip_loop enc pint E req host port (Suc i) tried' w2
                      else Returned (r, w2, tried'))))
      else Returned (Inl errMaxRetry, w, tried))"
  by pat_completeness auto
termination
  by (relation "measure (\<lambda>(enc, pint, E, req, host, port, i, tried, w). maxRetryRequest - i)") auto

text \<open>
  \<^verbatim>\<open>Transport.RoundTrip\<close>.  \<open>Fallback\<close> and \<open>Proxy\<close> are the fields of the transport
  (\<open>Proxy\<close> gives the host of the URL it returns, \<open>None\<close> for a nil URL, which is
  dereferenced); \<open>split\<close> is \<^verbatim>\<open>net.SplitHostPort\<close>, \<open>None\<close> for an error.
\<close>

record transportCfg =
  Fallback :: "(request \<Rightarrow> error + response) option"
  Proxy :: "(request \<Rightarrow> error + string option) option"

definition RoundTrip ::
  "transportCfg \<Rightarrow> (string \<Rightarrow> (string \<times> string) option) \<Rightarrow> encoders \<Rightarrow> (string \<Rightarrow> int) \<Rightarrow> (nat \<Rightarrow> attempt)
     \<Rightarrow> request \<Rightarrow> world \<Rightarrow> ((error + response) \<times> world \<times> attempts) ending" where
  "RoundTrip cfg split enc pint E req w =
     (if URL_Scheme req \<noteq> ''https'' \<and> Proxy cfg = None then
        (case Fallback cfg of
           None \<Rightarrow> Returned (Inl errUnsupportedScheme, w, [])
         | Some fb \<Rightarrow> Returned (fb req, w, []))
      else
        (case (case Proxy cfg of
                 None \<Rightarrow> Returned (Inr (URL_Host req))
               | Some px \<Rightarrow>
                   (case px req of
                      Inl e \<Rightarrow> Returned (Inl e)
                    | Inr None \<Rightarrow> Panicked
                    | Inr (Some h) \<Rightarrow> Returned (Inr h))) of
           Returned (Inl e) \<Rightarrow> Returned (Inl e, w, [])
         | Returned (Inr h) \<Rightarrow>
             (case (case split h of Some hp \<Rightarrow> hp | None \<Rightarrow> (h, ''443'')) of
                (host, port) \<Rightarrow> RoundTrip_loop enc pint E req host port 0 [] w)
         | _ \<Rightarrow> Panicked))"

text \<open>A request with a multi-valued header, a \<^verbatim>\<open>Host\<close> header and no explicit host.\<close>

definition exampleRequest :: request where
  "exampleRequest =
     \<lparr>Method = ''GET'', URL_Scheme = ''https'', URL_Host = ''h'', Host = '''', RequestURI = '''',
      ReqHeader = [(''Accept'', [''a'', ''b'']), (''HOST'', [''x'']), (''X-Y'', [''z''])],
      ReqContentLength = 0\<rparr>"

subsection \<open>The fragmentation of a header block, as the spec words it\<close>

text \<open>
  The slices of at most \<open>m\<close> bytes of a block, and the frames the spec asks for: the first
  slice as HEADERS with END_STREAM \<open>= \<not> hasBody\<close> and END_HEADERS when it is the only
  slice, every later slice as CONTINUATION, the last with END_HEADERS.
\<close>

function chunksOf :: "nat \<Rightarrow> 'a list \<Rightarrow> 'a list list" where
  "chunksOf m xs = (if m = 0 \<or> xs = [] then [] else take m xs # chunksOf m (drop m xs))"
  by pat_completeness auto
termination
  by (relation "measure (\<lambda>(m, xs). length xs)") auto

fun contFrames :: "u32 \<Rightarrow> bytes list \<Rightarrow> wire_op list" where
  "contFrames sid [] = []"
| "contFrames sid (f # fs) = WriteContinuation sid (fs = []) f # contFrames sid fs"

fun headerFrames :: "u32 \<Rightarrow> bool \<Rightarrow> bytes list \<Rightarrow> wire_op list" where
  "headerFrames sid hasBody [] = []"
| "headerFrames sid hasBody (f # fs) = WriteHeaders sid f (\<not> hasBody) (fs = []) # contFrames sid fs"

text \<open>
  A framer and a socket that never fail; an encoder that spends one byte per field, with
  \<^verbatim>\<open>strings.ToLower\<close> as it acts on ASCII names.
\<close>

definition quietEnv :: "nat \<Rightarrow> io" where
  "quietEnv k = ([], None)"

definition asciiLowerChar :: "char \<Rightarrow> char" where
  "asciiLowerChar ch =
     (case map_of (zip ''ABCDEFGHIJKLMNOPQRSTUVWXYZ'' ''abcdefghijklmnopqrstuvwxyz'') ch of
        Some l \<Rightarrow> l
      | None \<Rightarrow> ch)"

definition asciiLower :: "string \<Rightarrow> string" where
  "asciiLower s = map asciiLowerChar s"

definition byteEnc :: encoders where
  "byteEnc = \<lparr>WriteField = (\<lambda>h f. [0]), ToLower = asciiLower\<rparr>"

text \<open>The header block \<^verbatim>\<open>do\<close> sends for a request: \<^verbatim>\<open>encodeHeaders\<close> after \<^verbatim>\<open>newStream\<close>.\<close>

definition headerBlock :: "encoders \<Rightarrow> request \<Rightarrow> nat \<Rightarrow> world \<Rightarrow> bytes" where
  "headerBlock enc req a w = fst (encodeHeaders enc req (conn_at (snd (newStream a w)) a))"

text \<open>A CONNECT request that leaves \<^verbatim>\<open>ContentLength\<close> unset.\<close>

definition connectRequest :: request where
  "connectRequest =
     \<lparr>Method = ''CONNECT'', URL_Scheme = ''https'', URL_Host = ''example:443'', Host = '''',
      RequestURI = '''', ReqHeader = [], ReqContentLength = 0\<rparr>"

subsection \<open>The tunnel channel\<close>




text \<open>
  A connection carrying one tunnel: stream 1 is registered and has its pipe, as after a
  CONNECT request whose response headers have arrived.
\<close>

definition tunnelWorld :: world where
  "tunnelWorld =
     (worldWith ''h:443''
        ((freshConn ''h:443'')\<lparr>streams := [1 \<mapsto> 0], nextStreamID := 3\<rparr>))
     \<lparr>stream_at := (\<lambda>_. emptyStream)(0 := \<lparr>ID = 1, resc = [], pipe = Some 0\<rparr>),
      next_stream := 1, next_pipe := 1\<rparr>"




subsection \<open>The reader\<close>

text \<open>
  The library functions the field callback uses: \<^verbatim>\<open>strconv.Atoi\<close> (\<open>None\<close> for an
  error), \<^verbatim>\<open>http.StatusText\<close> and \<^verbatim>\<open>http.CanonicalHeaderKey\<close>.
\<close>

record lib =
  Atoi :: "string \<Rightarrow> int option"
  StatusText :: "int \<Rightarrow> string"
  CanonicalHeaderKey :: "string \<Rightarrow> string"

text \<open>\<^verbatim>\<open>Header.Add\<close>: the value is appended to the values of the key.\<close>

fun headerAdd :: "string \<Rightarrow> string \<Rightarrow> (string \<times> string list) list \<Rightarrow> (string \<times> string list) list" where
  "headerAdd k v [] = [(k, [v])]"
| "headerAdd k v ((k', vv) # h) = (if k' = k then (k', vv @ [v]) # h else (k', vv) # headerAdd k v h)"

text \<open>\<^verbatim>\<open>onNewHeaderField\<close>, on \<^verbatim>\<open>cc.nextRes\<close>; a nil \<^verbatim>\<open>nextRes\<close> is dereferenced.\<close>

definition onNewHeaderField ::
  "lib \<Rightarrow> string \<times> string \<Rightarrow> response option \<Rightarrow> response option ending" where
  "onNewHeaderField L f nr =
     (case f of (name, v) \<Rightarrow>
        if name = '':status'' then
          (case Atoi L v of
             None \<Rightarrow> Panicked
           | Some code \<Rightarrow>
               (case nr of
                  None \<Rightarrow> Panicked
                | Some r \<Rightarrow>
                    Returned (Some (r\<lparr>Status := v @ '' '' @ StatusText L code, StatusCode := code\<rparr>))))
        else if take 1 name = '':'' then Returned nr
        else
          (case nr of
             None \<Rightarrow> Panicked
           | Some r \<Rightarrow> Returned (Some (r\<lparr>Header := headerAdd (CanonicalHeaderKey L name) v (Header r)\<rparr>))))"

text \<open>
  \<^verbatim>\<open>cc.hdec.Write\<close>: the HPACK decoder is outside \<^verbatim>\<open>transport.go\<close>; the fields it emits
  for a fragment are input, and the callback runs on each in order.  The result is
  \<^verbatim>\<open>nextRes\<close> at the end and whether the callback panicked.
\<close>

fun hdecWrite :: "lib \<Rightarrow> (string \<times> string) list \<Rightarrow> response option \<Rightarrow> response option \<times> bool" where
  "hdecWrite L [] nr = (nr, False)"
| "hdecWrite L (f # fs) nr =
     (case onNewHeaderField L f nr of
        Returned nr' \<Rightarrow> hdecWrite L fs nr'
      | _ \<Rightarrow> (nr, True))"

text \<open>
  The variables of \<^verbatim>\<open>readLoop\<close>.  \<open>activeRes\<close> lists the entries of the map in the order
  in which the deferred range loop visits them.
\<close>

record reader =
  activeRes :: "(u32 \<times> nat) list"
  continueStreamID :: u32

definition activeDelete :: "u32 \<Rightarrow> (u32 \<times> nat) list \<Rightarrow> (u32 \<times> nat) list" where
  "activeDelete sid ar = filter (\<lambda>e. fst e \<noteq> sid) ar"

definition activeSet :: "u32 \<Rightarrow> nat \<Rightarrow> (u32 \<times> nat) list \<Rightarrow> (u32 \<times> nat) list" where
  "activeSet sid sa ar = (sid, sa) # activeDelete sid ar"

definition newResponse :: response where
  "newResponse =
     \<lparr>Status = '''', StatusCode = 0, Proto = ''HTTP/2.0'', ProtoMajor = 2, Header = [], Body = None,
      ContentLength = 0, hasRequest = False, hasTLS = False\<rparr>"

text \<open>
  The \<^verbatim>\<open>switch\<close> of the loop body on the frame type, for the stream at \<open>sa\<close>: the
  world after it and whether it panicked (a write to a nil pipe, a panic of the callback).
  A write to a pipe is recorded as an event; that it waits for the reader of the body is
  left out.
\<close>

definition dispatch ::
  "lib \<Rightarrow> nat \<Rightarrow> frame \<Rightarrow> (string \<times> string) list \<Rightarrow> nat \<Rightarrow> world \<Rightarrow> world \<times> bool" where
  "dispatch L a f flds sa w =
     (case body f of
        Headers es eh frag \<Rightarrow>
          (let pa = next_pipe w;
               w1 = w\<lparr>stream_at := (stream_at w)(sa := (stream_at w sa)\<lparr>pipe := Some pa\<rparr>),
                       next_pipe := Suc pa\<rparr>;
               (nr, panicked) = hdecWrite L flds (Some newResponse)
           in (updConn a (\<lambda>c. c\<lparr>nextRes := nr\<rparr>) w1, panicked))
      | Continuation eh frag \<Rightarrow>
          (let (nr, panicked) = hdecWrite L flds (nextRes (conn_at w a))
           in (updConn a (\<lambda>c. c\<lparr>nextRes := nr\<rparr>) w, panicked))
      | Data es d \<Rightarrow>
          (case pipe (stream_at w sa) of
             None \<Rightarrow> (w, True)
           | Some pa \<Rightarrow> (emit [PipeWrite pa d] w, False))
      | GoAway code \<Rightarrow> (updConn a (setGoAway f) (removeClientConn a w), False)
      | _ \<Rightarrow> (w, False))"

text \<open>How one pass through the loop body ends.\<close>

datatype step =
    Continue reader world       \<comment> \<open>the loop goes on\<close>
  | Exit reader world           \<comment> \<open>\<^verbatim>\<open>return\<close>: the deferred calls run\<close>
  | Panic reader world          \<comment> \<open>a panic: the deferred calls run, then the program stops\<close>
  | BlockedOnSend reader world  \<comment> \<open>the send on a full \<^verbatim>\<open>cs.resc\<close> waits for a receiver\<close>

text \<open>
  The part of the loop body after the stream was found at \<open>sa\<close>: the dispatch, the
  END_HEADERS bookkeeping, the end of the stream, the delivery of the response.
\<close>

definition handleFrame ::
  "lib \<Rightarrow> nat \<Rightarrow> frame \<Rightarrow> (string \<times> string) list \<Rightarrow> bool \<Rightarrow> nat \<Rightarrow> reader \<Rightarrow> world \<Rightarrow> step" where
  "handleFrame L a f flds streamEnded sa rd w =
     (case dispatch L a f flds sa w of
        (w1, True) \<Rightarrow> Panic rd w1
      | (w1, False) \<Rightarrow>
          (let headersEnded = (HeadersEnded f = Some True);
               rd1 = (case HeadersEnded f of
                        None \<Rightarrow> rd
                      | Some he \<Rightarrow> rd\<lparr>continueStreamID := (if he then 0 else StreamID f)\<rparr>)
           in case (if streamEnded
                    then (case pipe (stream_at w1 sa) of
                            None \<Rightarrow> None
                          | Some pa \<Rightarrow>
                              Some (rd1\<lparr>activeRes := activeDelete (StreamID f) (activeRes rd1)\<rparr>,
                                    emit [PipeWriterClose pa] w1))
                    else Some (rd1, w1)) of
                None \<Rightarrow> Panic rd1 w1
              | Some (rd2, w2) \<Rightarrow>
                  if headersEnded then
                    (case nextRes (conn_at w2 a) of
                       None \<Rightarrow> Panic rd2 w2
                     | Some nr \<Rightarrow>
                         (let nr' = nr\<lparr>Body := pipe (stream_at w2 sa)\<rparr>;
                              w3 = updConn a (\<lambda>c. c\<lparr>nextRes := Some nr'\<rparr>) w2;
                              rd3 = rd2\<lparr>activeRes := activeSet (StreamID f) sa (activeRes rd2)\<rparr>
                          in if length (resc (stream_at w3 sa)) \<ge> 1 then BlockedOnSend rd3 w3
                             else Continue rd3
                                    (w3\<lparr>stream_at := (stream_at w3)(sa := (stream_at w3 sa)
                                          \<lparr>resc := [\<lparr>res = Some nr', err = None, rcc = Some a,
                                                     rcs = Some sa\<rparr>]\<rparr>)\<rparr>)))
                  else Continue rd2 w2))"

text \<open>
  One pass through the body of the loop of \<^verbatim>\<open>readLoop\<close>: \<open>rf\<close> is the result of
  \<^verbatim>\<open>ReadFrame\<close>, \<open>flds\<close> what the HPACK decoder emits for the frame's fragment.
\<close>

definition readLoop_body ::
  "lib \<Rightarrow> nat \<Rightarrow> error + frame \<Rightarrow> (string \<times> string) list \<Rightarrow> reader \<Rightarrow> world \<Rightarrow> step" where
  "readLoop_body L a rf flds rd w =
     (case rf of
        Inl e \<Rightarrow> Exit rd (updConn a (\<lambda>c. c\<lparr>readerErr := Some e\<rparr>) w)
      | Inr f \<Rightarrow>
          (let streamID = StreamID f in
           if isContinuation f \<and> streamID \<noteq> continueStreamID rd
           then Exit rd (updConn a (\<lambda>c. c\<lparr>readerErr := Some (ConnectionError ErrCodeProtocol)\<rparr>) w)
           else if \<not> isContinuation f \<and> continueStreamID rd \<noteq> 0
           then Exit rd (updConn a (\<lambda>c. c\<lparr>readerErr := Some (ConnectionError ErrCodeProtocol)\<rparr>) w)
           else if streamID mod 2 = 0 then Continue rd w
           else
             (let streamEnded = StreamEnded f;
                  (cso, c') = streamByID streamID streamEnded (conn_at w a);
                  w1 = w\<lparr>conn_at := (conn_at w)(a := c')\<rparr>
              in case cso of
                   None \<Rightarrow> Continue rd w1
                 | Some sa \<Rightarrow> handleFrame L a f flds streamEnded sa rd w1)))"

text \<open>
  The deferred calls of \<^verbatim>\<open>readLoop\<close>, in the order in which they are registered; they
  run in the reverse order when the function returns or panics.  The closure reads
  \<^verbatim>\<open>cc.readerErr\<close>, maps \<^verbatim>\<open>io.EOF\<close> to \<^verbatim>\<open>io.ErrUnexpectedEOF\<close> and closes the
  pipe writer of every stream in \<^verbatim>\<open>activeRes\<close> with it (a stream without a pipe makes it
  panic, which ends its loop).
\<close>

datatype deferred = DeferRemoveClientConn | DeferCloseReaderDone | DeferCloseActiveRes

definition readLoop_defers :: "deferred list" where
  "readLoop_defers = [DeferRemoveClientConn, DeferCloseReaderDone, DeferCloseActiveRes]"

fun closePipes :: "error option \<Rightarrow> (u32 \<times> nat) list \<Rightarrow> world \<Rightarrow> world" where
  "closePipes e [] w = w"
| "closePipes e ((sid, sa) # ar) w =
     (case pipe (stream_at w sa) of
        None \<Rightarrow> w
      | Some pa \<Rightarrow> closePipes e ar (emit [PipeWriterCloseWithError pa e] w))"

fun runDeferred :: "nat \<Rightarrow> reader \<Rightarrow> deferred \<Rightarrow> world \<Rightarrow> world" where
  "runDeferred a rd DeferRemoveClientConn w = removeClientConn a w"
| "runDeferred a rd DeferCloseReaderDone w = emit [CloseReaderDone a] w"
| "runDeferred a rd DeferCloseActiveRes w =
     (let e = readerErr (conn_at w a);
          e' = (if e = Some EOF then Some ErrUnexpectedEOF else e)
      in closePipes e' (activeRes rd) w)"

definition readLoop_exit :: "nat \<Rightarrow> reader \<Rightarrow> world \<Rightarrow> world" where
  "readLoop_exit a rd w = foldl (\<lambda>w' d. runDeferred a rd d w') w (rev readLoop_defers)"

text \<open>
  \<^verbatim>\<open>readLoop\<close> on the inputs that arrive: it is still reading when they are used up, it
  has returned or panicked (the deferred calls have run), or it waits in a send.
\<close>

datatype run = Reading reader world | Done world | Crashed world | Sending reader world

fun readLoop_from ::
  "lib \<Rightarrow> nat \<Rightarrow> ((error + frame) \<times> (string \<times> string) list) list \<Rightarrow> reader \<Rightarrow> world \<Rightarrow> run" where
  "readLoop_from L a [] rd w = Reading rd w"
| "readLoop_from L a ((rf, flds) # rest) rd w =
     (case readLoop_body L a rf flds rd w of
        Continue rd' w' \<Rightarrow> readLoop_from L a rest rd' w'
      | Exit rd' w' \<Rightarrow> Done (readLoop_exit a rd' w')
      | Panic rd' w' \<Rightarrow> Crashed (readLoop_exit a rd' w')
      | BlockedOnSend rd' w' \<Rightarrow> Sending rd' w')"

definition readLoop ::
  "lib \<Rightarrow> nat \<Rightarrow> ((error + frame) \<times> (string \<times> string) list) list \<Rightarrow> world \<Rightarrow> run" where
  "readLoop L a inputs w = readLoop_from L a inputs \<lparr>activeRes = [], continueStreamID = 0\<rparr> w"

text \<open>The pipes of the streams of \<^verbatim>\<open>activeRes\<close>, in its order.\<close>

definition pipesOf :: "world \<Rightarrow> (u32 \<times> nat) list \<Rightarrow> nat list" where
  "pipesOf w ar = List.map_filter (\<lambda>e. pipe (stream_at w (snd e))) ar"

text \<open>Library functions for the examples: digits only, no status text, keys as they are.\<close>

definition plainLib :: lib where
  "plainLib = \<lparr>Atoi = (\<lambda>s. if s = ''200'' then Some 200 else None), StatusText = (\<lambda>_. ''''),
               CanonicalHeaderKey = (\<lambda>s. s)\<rparr>"

text \<open>A reader in the middle of the header block of stream 1, whose response is active.\<close>

definition midHeaders :: reader where
  "midHeaders = \<lparr>activeRes = [(1, 0)], continueStreamID = 1\<rparr>"

definition idleReader :: reader where
  "idleReader = \<lparr>activeRes = [], continueStreamID = 0\<rparr>"

text \<open>Surroundings that do nothing: no other task runs, the dial fails, the framer is quiet.\<close>

definition stillAttempt :: "nat \<Rightarrow> attempt" where
  "stillAttempt i =
     \<lparr>at_before = (\<lambda>w. w), at_dial = Inl (OtherError ''dial''), at_io = quietEnv,
      at_wait = (\<lambda>w. w)\<rparr>"

definition failsClosed :: "nat \<times> bool \<times> (error + response) \<Rightarrow> bool" where
  "failsClosed t = (snd (snd t) = Inl errClientConnClosed)"

text \<open>
  The surroundings never hand the transport its own \<^verbatim>\<open>errClientConnClosed\<close> back (the
  variable is not exported, and \<^verbatim>\<open>do\<close> is the only place that returns it): no
  connection has it latched as write error, no channel holds it, the socket does not
  answer with it, and the other tasks keep it so.
\<close>

definition sentinelFree :: "world \<Rightarrow> bool" where
  "sentinelFree w =
     ((\<forall>a. werr (conn_at w a) \<noteq> Some errClientConnClosed) \<and>
      (\<forall>s. \<forall>re\<in>set (resc (stream_at w s)). err re \<noteq> Some errClientConnClosed))"

definition honestIO :: "io \<Rightarrow> bool" where
  "honestIO i = (\<forall>pr\<in>set (fst i). snd (snd pr) \<noteq> Some errClientConnClosed)"

definition honest :: "attempt \<Rightarrow> bool" where
  "honest t =
     ((\<forall>w. sentinelFree w \<longrightarrow> sentinelFree (at_before t w)) \<and>
      (\<forall>w. sentinelFree w \<longrightarrow> sentinelFree (at_wait t w)) \<and>
      (\<forall>k. honestIO (at_io t k)))"

text \<open>A pooled connection on which one request has been placed: stream 1 is registered.\<close>

definition placedWorld :: world where
  "placedWorld = snd (newStream 0 (worldWith ''h:443'' (freshConn ''h:443'')))"

text \<open>The bytes the HPACK encoder appends for a list of fields, after the fields \<open>h\<close>.\<close>

fun encodeAll :: "encoders \<Rightarrow> (string \<times> string) list \<Rightarrow> (string \<times> string) list \<Rightarrow> bytes" where
  "encodeAll enc h [] = []"
| "encodeAll enc h (f # fs) = WriteField enc h f @ encodeAll enc (h @ [f]) fs"

text \<open>
  The fields of a request as the spec lists them: the four pseudo-headers, then one field
  per value of every header whose lowercased name is not \<^verbatim>\<open>host\<close>, under the
  lowercased name.
\<close>

definition requestFields :: "encoders \<Rightarrow> request \<Rightarrow> (string \<times> string) list" where
  "requestFields enc req =
     [('':authority'', if Host req = '''' then URL_Host req else Host req),
      ('':method'', Method req),
      ('':path'', if RequestURI req = '''' then ''/'' else RequestURI req),
      ('':scheme'', URL_Scheme req)] @
     concat (map (\<lambda>(k, vv). map (\<lambda>v. (ToLower enc k, v)) vv)
                 (filter (\<lambda>(k, vv). ToLower enc k \<noteq> ''host'') (ReqHeader req)))"

text \<open>
  The attempts of a round trip, replayed on the code: \<open>attemptsRun \<dots> i w ts\<close> is the
  world after \<open>ts\<close> when, from iteration \<open>i\<close> in world \<open>w\<close>, every entry of \<open>ts\<close> in turn
  is the connection that \<^verbatim>\<open>getClientConn\<close> returns, its \<^verbatim>\<open>closed\<close> flag at that moment,
  and the result that \<^verbatim>\<open>cc.roundTrip\<close> returns on it; it is \<open>None\<close> when the list is not
  what the calls give.
\<close>

fun attemptsRun ::
  "encoders \<Rightarrow> (string \<Rightarrow> int) \<Rightarrow> (nat \<Rightarrow> attempt) \<Rightarrow> request \<Rightarrow> string \<Rightarrow> string \<Rightarrow> nat \<Rightarrow> world \<Rightarrow> attempts
     \<Rightarrow> world option" where
  "attemptsRun enc pint E req host port i w [] = Some w"
| "attemptsRun enc pint E req host port i w (t # ts) =
     (case getClientConn (at_dial (E i)) host port (at_before (E i) w) of
        (Inl e, w1) \<Rightarrow> None
      | (Inr a, w1) \<Rightarrow>
          (case roundTrip enc (at_io (E i)) (at_wait (E i)) pint req a w1 of
             Returned (r, w2) \<Rightarrow>
               if t = (a, closed (conn_at w1 a), r)
               then attemptsRun enc pint E req host port (Suc i) w2 ts
               else None
           | _ \<Rightarrow> None))"

text \<open>
  What the spec says of a round trip that starts at iteration \<open>i\<close> with \<open>3 - i\<close> attempts
  left: the attempts made are at most that many, all but the last failed with
  \<^verbatim>\<open>errClientConnClosed\<close>, and the result is that of the last attempt if it did not fail
  so, the error of the exhausted retries if all attempts are used up, and otherwise the
  error of the connection selection that failed.
\<close>

definition retryOutcome ::
  "encoders \<Rightarrow> (string \<Rightarrow> int) \<Rightarrow> (nat \<Rightarrow> attempt) \<Rightarrow> request \<Rightarrow> string \<Rightarrow> string \<Rightarrow> nat \<Rightarrow> world \<Rightarrow> attempts
     \<Rightarrow> error + response \<Rightarrow> world \<Rightarrow> bool" where
  "retryOutcome enc pint E req host port i w tried r w' =
     (length tried \<le> 3 - i \<and>
      (\<forall>t\<in>set (butlast tried). failsClosed t) \<and>
      (\<exists>wl. attemptsRun enc pint E req host port i w tried = Some wl \<and>
         (if tried \<noteq> [] \<and> \<not> failsClosed (last tried) then r = snd (snd (last tried)) \<and> w' = wl
          else if length tried = 3 - i then r = Inl errMaxRetry \<and> w' = wl
          else (\<exists>e. getClientConn (at_dial (E (i + length tried))) host port
                       (at_before (E (i + length tried)) wl) = (Inl e, w') \<and>
                     r = Inl e))))"


section \<open>Properties\<close>

subsection \<open>C2: the admission test\<close>

lemma u32_less_max_iff: "((x::u32) < 2147483647) = (unat x < 2 ^ 31 - 1)"
  by (simp add: word_less_nat_alt)

text \<open>
  C2, as the code has it: \<^verbatim>\<open>canTakeNewRequest\<close> is true exactly when no GOAWAY has been
  recorded, the number of streams plus one is strictly below \<^verbatim>\<open>maxConcurrentStreams\<close>,
  and \<^verbatim>\<open>nextStreamID\<close> is strictly below \<open>2^31 - 1\<close> (the largest stream id itself is
  not handed out).
\<close>

theorem canTakeNewRequest_iff:
  "canTakeNewRequest cc =
     (goAway cc = None \<and>
      card (dom (streams cc)) + 1 < unat (maxConcurrentStreams cc) \<and>
      unat (nextStreamID cc) < 2 ^ 31 - 1)"
proof -
  have "(int (card (dom (streams cc)) + 1) < uint (maxConcurrentStreams cc)) =
        (card (dom (streams cc)) + 1 < unat (maxConcurrentStreams cc))"
    by (simp only: uint_nat of_nat_less_iff)
  then show ?thesis
    by (simp only: canTakeNewRequest_def u32_less_max_iff)
qed

text \<open>
  C2 as the claim states it (bound \<open>2^31\<close>) fails at \<^verbatim>\<open>nextStreamID = 2147483647\<close>:
  no GOAWAY, one projected stream against a limit of 1000, an id below \<open>2^31\<close>, and the
  connection is refused.
\<close>

theorem canTakeNewRequest_last_id_refused:
  "goAway ((freshConn ''h:443'')\<lparr>nextStreamID := 2147483647\<rparr>) = None \<and>
   card (dom (streams ((freshConn ''h:443'')\<lparr>nextStreamID := 2147483647\<rparr>))) + 1
     < unat (maxConcurrentStreams ((freshConn ''h:443'')\<lparr>nextStreamID := 2147483647\<rparr>)) \<and>
   unat (nextStreamID ((freshConn ''h:443'')\<lparr>nextStreamID := 2147483647\<rparr>)) < 2 ^ 31 \<and>
   \<not> canTakeNewRequest ((freshConn ''h:443'')\<lparr>nextStreamID := 2147483647\<rparr>)"
  by (simp add: canTakeNewRequest_def freshConn_def)

subsection \<open>Helpers: the pool\<close>

lemma filterOut_loop_eq: "filterOut_loop vs ex out = out @ filter (\<lambda>v. v \<noteq> ex) vs"
  by (induction vs arbitrary: out) auto

lemma filterOutClientConn_eq: "filterOutClientConn vs ex = filter (\<lambda>v. v \<noteq> ex) vs"
  by (simp add: filterOutClientConn_def filterOut_loop_eq)

lemma firstTaker_first:
  "\<forall>b\<in>set pre. \<not> canTakeNewRequest (conn_at w b) \<Longrightarrow> canTakeNewRequest (conn_at w a)
   \<Longrightarrow> firstTaker w (pre @ a # post) = Some a"
  by (induction pre) auto

lemma worldWith_conn_at [simp]: "conn_at (worldWith key c) 0 = c"
  by (simp add: worldWith_def)

lemma worldWith_connsOf [simp]: "connsOf (worldWith key c) key = [0]"
  by (simp add: worldWith_def connsOf_def)

lemma worldWith_conns [simp]: "conns (worldWith key c) key = Some [0]"
  by (simp add: worldWith_def)

lemma JoinHostPort_h [simp]: "JoinHostPort ''h'' ''443'' = ''h:443''"
  by (simp add: JoinHostPort_def)

lemma canTake_fresh_closed [simp]: "canTakeNewRequest ((freshConn k)\<lparr>closed := b\<rparr>)"
  by (simp add: canTakeNewRequest_def freshConn_def)

lemma closeIfIdle_fresh:
  "closeIfIdle 0 (worldWith key (freshConn key)) =
     emit [SocketClose 0] (updConn 0 (\<lambda>c. c\<lparr>closed := True, tconnClosed := True\<rparr>) (worldWith key (freshConn key)))"
  by (simp add: closeIfIdle_def freshConn_def)

lemma conns_emit_updConn [simp]: "conns (emit es (updConn a f w)) = conns w"
  by (simp add: emit_def updConn_def)

lemma conn_at_emit_updConn [simp]: "conn_at (emit es (updConn a f w)) a = f (conn_at w a)"
  by (simp add: emit_def updConn_def)

subsection \<open>C3: selection and the closed flag\<close>

text \<open>
  C3, as the code has it: \<^verbatim>\<open>getClientConn\<close> returns the first connection registered
  under the key that passes \<^verbatim>\<open>canTakeNewRequest\<close>, and leaves the transport as it was.
  The \<^verbatim>\<open>closed\<close> flag takes no part in the selection.
\<close>

theorem getClientConn_first_taker:
  assumes "conns w (JoinHostPort host port) = Some (pre @ a # post)"
    and "\<forall>b\<in>set pre. \<not> canTakeNewRequest (conn_at w b)"
    and "canTakeNewRequest (conn_at w a)"
  shows "getClientConn dial host port w = (Inr a, w)"
  using firstTaker_first[OF assms(2,3)] assms(1)
  by (simp add: getClientConn_def connsOf_def Let_def)

theorem getClientConn_first_taker_witness:
  "getClientConn (Inr []) ''h'' ''443''
      (worldWith ''h:443'' ((freshConn ''h:443'')\<lparr>closed := False\<rparr>))
    = (Inr 0, worldWith ''h:443'' ((freshConn ''h:443'')\<lparr>closed := False\<rparr>))"
  using getClientConn_first_taker[of "worldWith ''h:443'' ((freshConn ''h:443'')\<lparr>closed := False\<rparr>)"
      "''h''" "''443''" "[]" 0 "[]" "Inr []"]
  by simp

text \<open>
  C3 as the claim states it fails: a connection that \<^verbatim>\<open>closeIfIdle\<close> has marked closed and
  that the reader has not yet removed from the pool is selected again.
\<close>

theorem getClientConn_returns_closed:
  "getClientConn (Inl (OtherError ''dial'')) ''h'' ''443''
      (closeIfIdle 0 (worldWith ''h:443'' (freshConn ''h:443'')))
    = (Inr 0, closeIfIdle 0 (worldWith ''h:443'' (freshConn ''h:443''))) \<and>
   closed (conn_at (closeIfIdle 0 (worldWith ''h:443'' (freshConn ''h:443''))) 0)"
proof -
  let ?w = "closeIfIdle 0 (worldWith ''h:443'' (freshConn ''h:443''))"
  have c: "conn_at ?w 0 = (freshConn ''h:443'')\<lparr>closed := True, tconnClosed := True\<rparr>"
    by (simp add: closeIfIdle_fresh)
  have k: "connsOf ?w ''h:443'' = [0]"
    by (simp add: closeIfIdle_fresh connsOf_def)
  have t: "canTakeNewRequest (conn_at ?w 0)"
    unfolding c by (simp add: canTakeNewRequest_def freshConn_def)
  have "closed (conn_at ?w 0)"
    unfolding c by simp
  moreover have "getClientConn (Inl (OtherError ''dial'')) ''h'' ''443'' ?w = (Inr 0, ?w)"
    using t by (simp add: getClientConn_def Let_def k)
  ultimately show ?thesis by simp
qed

subsection \<open>C7: the fields of the header block\<close>

lemma writeValues_henc: "henc (writeValues enc k vv c) = henc c @ map (\<lambda>v. (k, v)) vv"
  by (induction vv arbitrary: c) (simp_all add: writeHeader_def)

lemma writeEntries_henc:
  "henc (writeEntries enc kvs c) =
     henc c @ concat (map (\<lambda>(k, vv). map (\<lambda>v. (ToLower enc k, v)) vv)
                      (filter (\<lambda>(k, vv). ToLower enc k \<noteq> ''host'') kvs))"
  by (induction kvs arbitrary: c) (auto simp: Let_def writeValues_henc)

lemma encodeAll_append:
  "encodeAll enc h (xs @ ys) = encodeAll enc h xs @ encodeAll enc (h @ xs) ys"
  by (induction xs arbitrary: h) simp_all

lemma writeValues_hbuf:
  "hbuf (writeValues enc k vv c) = hbuf c @ encodeAll enc (henc c) (map (\<lambda>v. (k, v)) vv)"
  by (induction vv arbitrary: c) (simp_all add: writeHeader_def)

lemma writeEntries_hbuf:
  "hbuf (writeEntries enc kvs c) =
     hbuf c @ encodeAll enc (henc c)
       (concat (map (\<lambda>(k, vv). map (\<lambda>v. (ToLower enc k, v)) vv)
                    (filter (\<lambda>(k, vv). ToLower enc k \<noteq> ''host'') kvs)))"
  by (induction kvs arbitrary: c)
     (auto simp: Let_def writeValues_hbuf writeValues_henc encodeAll_append)

text \<open>
  C7: the fields that \<^verbatim>\<open>encodeHeaders\<close> hands to the HPACK encoder, and no others, are
  the four pseudo-headers \<^verbatim>\<open>:authority\<close>, \<^verbatim>\<open>:method\<close>, \<^verbatim>\<open>:path\<close>, \<^verbatim>\<open>:scheme\<close> in this
  order (\<^verbatim>\<open>:authority\<close> the explicit host if non-empty, else the URL host; \<^verbatim>\<open>:path\<close> the
  request-URI if non-empty, else \<^verbatim>\<open>/\<close>), then, for every header entry whose name as
  \<^verbatim>\<open>strings.ToLower\<close> returns it is not \<^verbatim>\<open>host\<close>, one field per value under that
  lowercased name, the values in their order; the block returned is what the encoder
  appends for these fields.  This holds for every request and whatever
  \<^verbatim>\<open>strings.ToLower\<close> and the encoder compute.
\<close>

theorem encodeHeaders_fields:
  "henc (snd (encodeHeaders enc req c)) = henc c @ requestFields enc req \<and>
   fst (encodeHeaders enc req c) = encodeAll enc (henc c) (requestFields enc req) \<and>
   requestFields enc req =
     [('':authority'', if Host req = '''' then URL_Host req else Host req),
      ('':method'', Method req),
      ('':path'', if RequestURI req = '''' then ''/'' else RequestURI req),
      ('':scheme'', URL_Scheme req)] @
     concat (map (\<lambda>(k, vv). map (\<lambda>v. (ToLower enc k, v)) vv)
                 (filter (\<lambda>(k, vv). ToLower enc k \<noteq> ''host'') (ReqHeader req)))"
  by (simp add: encodeHeaders_def Let_def writeEntries_henc writeEntries_hbuf writeHeader_def
      requestFields_def)

theorem encodeHeaders_fields_example:
  "henc (snd (encodeHeaders byteEnc exampleRequest (freshConn ''h:443''))) =
     [('':authority'', ''h''), ('':method'', ''GET''), ('':path'', ''/''), ('':scheme'', ''https''),
      (''accept'', ''a''), (''accept'', ''b''), (''x-y'', ''z'')] \<and>
   fst (encodeHeaders byteEnc exampleRequest (freshConn ''h:443'')) = [0, 0, 0, 0, 0, 0, 0]"
proof -
  have f: "requestFields byteEnc exampleRequest =
     [('':authority'', ''h''), ('':method'', ''GET''), ('':path'', ''/''), ('':scheme'', ''https''),
      (''accept'', ''a''), (''accept'', ''b''), (''x-y'', ''z'')]"
    by (simp add: requestFields_def exampleRequest_def asciiLower_def asciiLowerChar_def byteEnc_def)
  have h: "henc (freshConn ''h:443'') = []" by (simp add: freshConn_def)
  have e: "encodeAll byteEnc []
     [('':authority'', ''h''), ('':method'', ''GET''), ('':path'', ''/''), ('':scheme'', ''https''),
      (''accept'', ''a''), (''accept'', ''b''), (''x-y'', ''z'')] = [0, 0, 0, 0, 0, 0, 0]"
    by (simp add: byteEnc_def)
  from encodeHeaders_fields[of byteEnc exampleRequest "freshConn ''h:443''"]
  show ?thesis unfolding f h e by simp
qed

subsection \<open>Helpers: the framer calls and the header loop\<close>

declare chunksOf.simps [simp del]

lemma sticky_keeps:
  "maxFrameSize (snd (stickyErrWriter_Write pr c)) = maxFrameSize c"
  "wire (snd (stickyErrWriter_Write pr c)) = wire c"
  "closed (snd (stickyErrWriter_Write pr c)) = closed c"
  "streams (snd (stickyErrWriter_Write pr c)) = streams c"
  "nextStreamID (snd (stickyErrWriter_Write pr c)) = nextStreamID c"
  "goAway (snd (stickyErrWriter_Write pr c)) = goAway c"
  by (auto simp: stickyErrWriter_Write_def split: prod.splits)

lemma sticky_fold_keeps:
  "maxFrameSize (foldl (\<lambda>c' pr. snd (stickyErrWriter_Write pr c')) c ws) = maxFrameSize c"
  "wire (foldl (\<lambda>c' pr. snd (stickyErrWriter_Write pr c')) c ws) = wire c"
  "closed (foldl (\<lambda>c' pr. snd (stickyErrWriter_Write pr c')) c ws) = closed c"
  "streams (foldl (\<lambda>c' pr. snd (stickyErrWriter_Write pr c')) c ws) = streams c"
  "nextStreamID (foldl (\<lambda>c' pr. snd (stickyErrWriter_Write pr c')) c ws) = nextStreamID c"
  "goAway (foldl (\<lambda>c' pr. snd (stickyErrWriter_Write pr c')) c ws) = goAway c"
  by (induction ws arbitrary: c) (simp_all add: sticky_keeps)

lemma frcall_keeps [simp]:
  "maxFrameSize (snd (frcall op i c)) = maxFrameSize c"
  "wire (snd (frcall op i c)) = wire c @ [op]"
  "closed (snd (frcall op i c)) = closed c"
  "streams (snd (frcall op i c)) = streams c"
  "nextStreamID (snd (frcall op i c)) = nextStreamID c"
  "goAway (snd (frcall op i c)) = goAway c"
  by (simp_all add: frcall_def sticky_fold_keeps)

lemma chunksOf_Nil [simp]: "chunksOf m [] = []"
  by (simp add: chunksOf.simps)

lemma chunksOf_step: "0 < m \<Longrightarrow> xs \<noteq> [] \<Longrightarrow> chunksOf m xs = take m xs # chunksOf m (drop m xs)"
  by (subst chunksOf.simps) simp

lemma chunksOf_eq_Nil: "0 < m \<Longrightarrow> (chunksOf m xs = []) = (xs = [])"
  by (subst chunksOf.simps) simp

lemma concat_chunksOf: "0 < m \<Longrightarrow> concat (chunksOf m xs) = xs"
proof (induction m xs rule: chunksOf.induct)
  case (1 m xs)
  then show ?case by (cases "xs = []") (simp_all add: chunksOf_step)
qed

lemma chunksOf_lengths: "0 < m \<Longrightarrow> f \<in> set (chunksOf m xs) \<Longrightarrow> 0 < length f \<and> length f \<le> m"
proof (induction m xs rule: chunksOf.induct)
  case (1 m xs)
  then show ?case by (cases "xs = []") (auto simp: chunksOf_step)
qed

lemma loop_chunk:
  "(if unat (maxFrameSize c) < length hdrs then take (unat (maxFrameSize c)) hdrs else hdrs)
     = take (unat (maxFrameSize c)) hdrs"
  by simp

lemma drop_len_take: "drop (length (take m xs)) xs = drop m xs"
  by (cases "m \<le> length xs") (simp_all add: min_def)

lemma writeHeaderFrames_cont:
  "0 < m \<Longrightarrow> unat (maxFrameSize c) = m \<Longrightarrow>
   \<exists>c'. writeHeaderFrames env sid hb hdrs False k c = Some (k + length (chunksOf m hdrs), c') \<and>
        wire c' = wire c @ contFrames sid (chunksOf m hdrs) \<and>
        maxFrameSize c' = maxFrameSize c \<and> closed c' = closed c \<and> streams c' = streams c \<and>
        nextStreamID c' = nextStreamID c \<and> goAway c' = goAway c"
proof (induction m hdrs arbitrary: k c rule: chunksOf.induct)
  case (1 m xs)
  show ?case
  proof (cases "xs = []")
    case True
    then show ?thesis by (subst writeHeaderFrames.simps) simp
  next
    case False
    let ?op = "WriteContinuation sid (drop m xs = []) (take m xs)"
    let ?c1 = "snd (frcall ?op (env k) c)"
    have m1: "unat (maxFrameSize ?c1) = m" using 1 by simp
    from 1(1)[of ?c1 "Suc k"] False 1(2) m1
    obtain c' where c': "writeHeaderFrames env sid hb (drop m xs) False (Suc k) ?c1
          = Some (Suc k + length (chunksOf m (drop m xs)), c')"
        "wire c' = wire ?c1 @ contFrames sid (chunksOf m (drop m xs))"
        "maxFrameSize c' = maxFrameSize ?c1" "closed c' = closed ?c1" "streams c' = streams ?c1"
        "nextStreamID c' = nextStreamID ?c1" "goAway c' = goAway ?c1"
      by auto
    have "writeHeaderFrames env sid hb xs False k c
            = writeHeaderFrames env sid hb (drop m xs) False (Suc k) ?c1"
      using False 1(3)
      by (subst writeHeaderFrames.simps) (simp add: Let_def drop_len_take del: frcall_keeps)
    with c' show ?thesis
      using False 1(2) by (simp add: chunksOf_step[of m xs] chunksOf_eq_Nil)
  qed
qed


lemma writeHeaderFrames_first:
  assumes "0 < m" and "unat (maxFrameSize c) = m"
  shows "\<exists>c'. writeHeaderFrames env sid hb hdrs True k c = Some (k + length (chunksOf m hdrs), c') \<and>
        wire c' = wire c @ headerFrames sid hb (chunksOf m hdrs) \<and>
        maxFrameSize c' = maxFrameSize c \<and> closed c' = closed c \<and> streams c' = streams c \<and>
        nextStreamID c' = nextStreamID c \<and> goAway c' = goAway c"
proof (cases "hdrs = []")
  case True
  then show ?thesis by (subst writeHeaderFrames.simps) simp
next
  case False
  let ?op = "WriteHeaders sid (take m hdrs) (\<not> hb) (drop m hdrs = [])"
  let ?c1 = "snd (frcall ?op (env k) c)"
  have m1: "unat (maxFrameSize ?c1) = m" using assms by simp
  from writeHeaderFrames_cont[OF assms(1) m1, of env sid hb "drop m hdrs" "Suc k"]
  obtain c' where c': "writeHeaderFrames env sid hb (drop m hdrs) False (Suc k) ?c1
        = Some (Suc k + length (chunksOf m (drop m hdrs)), c')"
      "wire c' = wire ?c1 @ contFrames sid (chunksOf m (drop m hdrs))"
      "maxFrameSize c' = maxFrameSize ?c1" "closed c' = closed ?c1" "streams c' = streams ?c1"
      "nextStreamID c' = nextStreamID ?c1" "goAway c' = goAway ?c1"
    by auto
  have "writeHeaderFrames env sid hb hdrs True k c
          = writeHeaderFrames env sid hb (drop m hdrs) False (Suc k) ?c1"
    using False assms(2)
    by (subst writeHeaderFrames.simps) (simp add: Let_def drop_len_take del: frcall_keeps)
  with c' show ?thesis
    using False assms(1) by (simp add: chunksOf_step[of m hdrs] chunksOf_eq_Nil)
qed

lemma writeHeaderFrames_Some_D:
  assumes "writeHeaderFrames env sid hb hdrs first k c = Some y"
  shows "maxFrameSize c \<noteq> 0 \<or> hdrs = []"
proof (rule writeHeaderFrames.raw_induct
    [where P = "\<lambda>env sid hb hdrs first k c y. maxFrameSize c \<noteq> 0 \<or> hdrs = []", OF _ assms])
  fix f :: "(nat \<Rightarrow> io) \<Rightarrow> u32 \<Rightarrow> bool \<Rightarrow> bytes \<Rightarrow> bool \<Rightarrow> nat \<Rightarrow> clientConn \<Rightarrow> (nat \<times> clientConn) option"
  fix env sid hb hdrs first k c y
  assume IH: "\<And>env sid hb hdrs first k c y.
                f env sid hb hdrs first k c = Some y \<Longrightarrow> maxFrameSize c \<noteq> 0 \<or> hdrs = []"
  assume step: "(if 0 < length hdrs
          then let chunk = if unat (maxFrameSize c) < length hdrs
                           then take (unat (maxFrameSize c)) hdrs else hdrs;
                   hdrs' = drop (length chunk) hdrs;
                   endHeaders = length hdrs' = 0
               in if first
                  then f env sid hb hdrs' False (Suc k)
                        (snd (frcall (WriteHeaders sid chunk (\<not> hb) endHeaders) (env k) c))
                  else f env sid hb hdrs' first (Suc k)
                        (snd (frcall (WriteContinuation sid endHeaders chunk) (env k) c))
          else Some (k, c)) = Some y"
  show "maxFrameSize c \<noteq> 0 \<or> hdrs = []"
  proof (rule ccontr)
    assume "\<not> (maxFrameSize c \<noteq> 0 \<or> hdrs = [])"
    then have z: "maxFrameSize c = 0" and ne: "hdrs \<noteq> []" by auto
    show False
    proof (cases first)
      case True
      with step z ne have
        "f env sid hb hdrs False (Suc k)
           (snd (frcall (WriteHeaders sid [] (\<not> hb) False) (env k) c)) = Some y"
        by (simp add: Let_def)
      from IH[OF this] z ne show False by simp
    next
      case False
      with step z ne have
        "f env sid hb hdrs False (Suc k)
           (snd (frcall (WriteContinuation sid False []) (env k) c)) = Some y"
        by (simp add: Let_def)
      from IH[OF this] z ne show False by simp
    qed
  qed
qed

lemma writeHeaderFrames_diverges:
  "maxFrameSize c = 0 \<Longrightarrow> hdrs \<noteq> [] \<Longrightarrow> writeHeaderFrames env sid hb hdrs first k c = None"
  using writeHeaderFrames_Some_D[of env sid hb hdrs first k c]
  by (cases "writeHeaderFrames env sid hb hdrs first k c") auto

lemma writeValues_only: "\<exists>hb he. writeValues enc k vv c = c\<lparr>hbuf := hb, henc := he\<rparr>"
proof (induction vv arbitrary: c)
  case Nil
  have "c = c\<lparr>hbuf := hbuf c, henc := henc c\<rparr>" by simp
  then show ?case by (metis writeValues.simps(1))
next
  case (Cons v vv)
  from Cons[of "writeHeader enc k v c"] show ?case
    by (auto simp: writeHeader_def)
qed

lemma writeEntries_only: "\<exists>hb he. writeEntries enc kvs c = c\<lparr>hbuf := hb, henc := he\<rparr>"
proof (induction kvs arbitrary: c)
  case Nil
  have "c = c\<lparr>hbuf := hbuf c, henc := henc c\<rparr>" by simp
  then show ?case by (metis writeEntries.simps(1))
next
  case (Cons kv kvs)
  obtain k vv where kv: "kv = (k, vv)" by (cases kv)
  show ?case
  proof (cases "ToLower enc k = ''host''")
    case True
    with Cons[of c] kv show ?thesis by simp
  next
    case False
    obtain hb he where 1: "writeValues enc (ToLower enc k) vv c = c\<lparr>hbuf := hb, henc := he\<rparr>"
      using writeValues_only by blast
    from Cons[of "c\<lparr>hbuf := hb, henc := he\<rparr>"] False kv 1 show ?thesis
      by (auto simp: Let_def)
  qed
qed

lemma encodeHeaders_only:
  "\<exists>hb he. encodeHeaders enc req c = (hb, c\<lparr>hbuf := hb, henc := he\<rparr>)"
proof -
  let ?c4 = "writeHeader enc '':scheme'' (URL_Scheme req)
      (writeHeader enc '':path'' (if RequestURI req = [] then ''/'' else RequestURI req)
      (writeHeader enc '':method'' (Method req)
      (writeHeader enc '':authority'' (if Host req = [] then URL_Host req else Host req)
         (c\<lparr>hbuf := []\<rparr>))))"
  obtain hb he where 1: "writeEntries enc (ReqHeader req) ?c4 = ?c4\<lparr>hbuf := hb, henc := he\<rparr>"
    using writeEntries_only by blast
  have "encodeHeaders enc req c = (hb, ?c4\<lparr>hbuf := hb, henc := he\<rparr>)"
    by (simp add: encodeHeaders_def Let_def 1)
  moreover have "?c4\<lparr>hbuf := hb, henc := he\<rparr> = c\<lparr>hbuf := hb, henc := he\<rparr>"
    by (simp add: writeHeader_def)
  ultimately show ?thesis by metis
qed

lemma do_send_frames:
  assumes nc: "\<not> closed (conn_at w a)" and m: "unat (maxFrameSize (conn_at w a)) = m" "0 < m"
  shows "\<exists>r w'. do_send enc env req a w = Some (r, w') \<and>
           wire (conn_at w' a) =
             wire (conn_at w a) @
             headerFrames (nextStreamID (conn_at w a)) (hasBodyOf req)
               (chunksOf m (headerBlock enc req a w)) @ [Flush]"
proof -
  obtain sa w1 where ns: "newStream a w = (sa, w1)" by (cases "newStream a w")
  then have c1: "conn_at w1 a = (conn_at w a)\<lparr>nextStreamID := nextStreamID (conn_at w a) + 2,
        streams := (streams (conn_at w a))(nextStreamID (conn_at w a) \<mapsto> sa)\<rparr>"
    and sid: "ID (stream_at w1 sa) = nextStreamID (conn_at w a)"
    by (auto simp: newStream_def Let_def)
  obtain hb he where eh: "encodeHeaders enc req (conn_at w1 a) = (hb, (conn_at w1 a)\<lparr>hbuf := hb, henc := he\<rparr>)"
    using encodeHeaders_only by blast
  let ?c2 = "(conn_at w1 a)\<lparr>hbuf := hb, henc := he\<rparr>"
  have blk: "headerBlock enc req a w = hb"
    by (simp add: headerBlock_def ns eh)
  have m2: "unat (maxFrameSize ?c2) = m" using m by (simp add: c1)
  from writeHeaderFrames_first[OF m(2) m2, of env "nextStreamID (conn_at w a)" "hasBodyOf req" hb 0]
  obtain c3 where c3: "writeHeaderFrames env (nextStreamID (conn_at w a)) (hasBodyOf req) hb True 0 ?c2
        = Some (length (chunksOf m hb), c3)"
      "wire c3 = wire ?c2 @ headerFrames (nextStreamID (conn_at w a)) (hasBodyOf req) (chunksOf m hb)"
    by auto
  have w2: "wire ?c2 = wire (conn_at w a)" by (simp add: c1)
  show ?thesis
    using nc c3 w2
    by (auto simp: do_send_def ns sid eh blk Let_def split: option.splits)
qed

lemma chunksOf_exact: "0 < m \<Longrightarrow> length B = m \<Longrightarrow> chunksOf m B = [B]"
  by (subst chunksOf.simps) auto

lemma chunksOf_one_more:
  "0 < m \<Longrightarrow> length B = m + 1 \<Longrightarrow> chunksOf m B = [take m B, drop m B]"
proof -
  assume m: "0 < m" and l: "length B = m + 1"
  then have "B \<noteq> []" by auto
  then have 1: "chunksOf m B = take m B # chunksOf m (drop m B)"
    using m by (simp add: chunksOf_step)
  have d: "drop m B \<noteq> []" "length (drop m B) = 1" using l by auto
  have "chunksOf m (drop m B) = take m (drop m B) # chunksOf m (drop m (drop m B))"
    using m d by (simp add: chunksOf_step)
  also have "\<dots> = [drop m B]" using m d by simp
  finally show ?thesis using 1 by simp
qed

subsection \<open>C6: the frames of a header block\<close>

text \<open>
  C6, as the code has it: on a connection that is not closed and whose \<^verbatim>\<open>maxFrameSize\<close>
  is \<open>m > 0\<close>, \<^verbatim>\<open>do\<close> returns from its sending part, and the calls it made on the
  framer are the frames of the spec for the slices of at most \<open>m\<close> bytes of the encoded
  block, followed by the flush: the first slice as HEADERS with END_STREAM
  \<open>= \<not> hasBody\<close> (\<open>hasBody\<close> being \<^verbatim>\<open>ContentLength > 0\<close> or method CONNECT) and
  END_HEADERS exactly when it is the only slice, each later slice as CONTINUATION, the
  last with END_HEADERS.  The slices concatenate to the block and none is longer than
  \<open>m\<close>; a block of \<open>m\<close> bytes gives one HEADERS frame with END_HEADERS, a block of
  \<open>m + 1\<close> bytes gives HEADERS and one CONTINUATION.
\<close>

theorem do_header_fragments:
  assumes "\<not> closed (conn_at w a)"
    and "unat (maxFrameSize (conn_at w a)) = m" and "0 < m"
  shows "(\<exists>r w'. do_send enc env req a w = Some (r, w') \<and>
            wire (conn_at w' a) =
              wire (conn_at w a) @
              headerFrames (nextStreamID (conn_at w a)) (hasBodyOf req)
                (chunksOf m (headerBlock enc req a w)) @ [Flush]) \<and>
         hasBodyOf req = (ReqContentLength req > 0 \<or> Method req = ''CONNECT'') \<and>
         concat (chunksOf m (headerBlock enc req a w)) = headerBlock enc req a w \<and>
         (\<forall>f \<in> set (chunksOf m (headerBlock enc req a w)). length f \<le> m) \<and>
         (length (headerBlock enc req a w) = m \<longrightarrow>
            headerFrames (nextStreamID (conn_at w a)) (hasBodyOf req)
                (chunksOf m (headerBlock enc req a w)) =
              [WriteHeaders (nextStreamID (conn_at w a)) (headerBlock enc req a w)
                 (\<not> hasBodyOf req) True]) \<and>
         (length (headerBlock enc req a w) = m + 1 \<longrightarrow>
            headerFrames (nextStreamID (conn_at w a)) (hasBodyOf req)
                (chunksOf m (headerBlock enc req a w)) =
              [WriteHeaders (nextStreamID (conn_at w a)) (take m (headerBlock enc req a w))
                 (\<not> hasBodyOf req) False,
               WriteContinuation (nextStreamID (conn_at w a)) True
                 (drop m (headerBlock enc req a w))])"
  using do_send_frames[OF assms, of enc env req] assms(3)
  by (auto simp: hasBodyOf_def concat_chunksOf chunksOf_exact chunksOf_one_more
      dest: chunksOf_lengths)


lemma exampleBlock:
  "headerBlock byteEnc exampleRequest 0 (worldWith key c) = [0, 0, 0, 0, 0, 0, 0]"
  by (simp add: headerBlock_def newStream_def Let_def encodeHeaders_def writeHeader_def
      exampleRequest_def asciiLower_def asciiLowerChar_def byteEnc_def)

theorem do_header_fragments_witness:
  "\<exists>r w'. do_send byteEnc quietEnv exampleRequest 0
            (worldWith ''h:443'' (applySetting (freshConn ''h:443'') (SettingMaxFrameSize, 4)))
          = Some (r, w') \<and>
        wire (conn_at w' 0) =
          [WriteHeaders 1 [0, 0, 0, 0] True False, WriteContinuation 1 True [0, 0, 0], Flush]"
proof -
  let ?w = "worldWith ''h:443'' (applySetting (freshConn ''h:443'') (SettingMaxFrameSize, 4))"
  have nc: "\<not> closed (conn_at ?w 0)" by (simp add: freshConn_def)
  have m: "unat (maxFrameSize (conn_at ?w 0)) = 4" by (simp add: freshConn_def)
  have sid: "nextStreamID (conn_at ?w 0) = 1" "wire (conn_at ?w 0) = []"
    by (simp_all add: freshConn_def)
  have hb: "hasBodyOf exampleRequest = False"
    by (simp add: hasBodyOf_def exampleRequest_def)
  have ch: "chunksOf 4 [0, 0, 0, 0, 0, 0, 0 :: 8 word] = [[0, 0, 0, 0], [0, 0, 0]]"
    by (simp add: chunksOf_step)
  have p: "0 < (4::nat)" by simp
  note do_header_fragments[OF nc m p, of byteEnc quietEnv exampleRequest, THEN conjunct1]
  then show ?thesis
    unfolding exampleBlock sid hb ch by simp
qed

text \<open>
  C6 as the claim states it (every \<^verbatim>\<open>maxFrameSize\<close>) fails at 0, a value the peer's
  SETTINGS frame can set: every slice is empty, the block never shrinks, and the loop
  of \<^verbatim>\<open>do\<close> does not end.
\<close>

theorem do_never_returns_on_zero_frame_size:
  "do_send byteEnc quietEnv exampleRequest 0
     (worldWith ''h:443'' (applySetting (freshConn ''h:443'') (SettingMaxFrameSize, 0))) = None"
  by (simp add: do_send_def newStream_def Let_def encodeHeaders_def writeHeader_def
      exampleRequest_def asciiLower_def asciiLowerChar_def byteEnc_def freshConn_def
      writeHeaderFrames_diverges)

subsection \<open>Helpers: the sending part of do\<close>

lemma do_send_shape:
  assumes nc: "\<not> closed (conn_at w a)" and m: "unat (maxFrameSize (conn_at w a)) = m" "0 < m"
  shows "\<exists>w'. do_send enc env req a w =
             Some (case werr (conn_at w' a) of Some e \<Rightarrow> Inl (errResult e)
                                             | None \<Rightarrow> Inr (next_stream w), w') \<and>
           copiers w' = copiers w @
             (if hasBodyOf req
              then [\<lparr>dw_cc = a, dw_cs = next_stream w, totalSize = ReqContentLength req\<rparr>]
              else []) \<and>
           ID (stream_at w' (next_stream w)) = nextStreamID (conn_at w a) \<and>
           conns w' = conns w \<and> closed (conn_at w' a) = closed (conn_at w a)"
proof -
  obtain sa w1 where ns: "newStream a w = (sa, w1)" by (cases "newStream a w")
  then have c1: "conn_at w1 a = (conn_at w a)\<lparr>nextStreamID := nextStreamID (conn_at w a) + 2,
        streams := (streams (conn_at w a))(nextStreamID (conn_at w a) \<mapsto> sa)\<rparr>"
    and sid: "ID (stream_at w1 sa) = nextStreamID (conn_at w a)"
    and sa: "sa = next_stream w" and cp: "copiers w1 = copiers w" and cn: "conns w1 = conns w"
    by (auto simp: newStream_def Let_def)
  obtain hb he where eh: "encodeHeaders enc req (conn_at w1 a) = (hb, (conn_at w1 a)\<lparr>hbuf := hb, henc := he\<rparr>)"
    using encodeHeaders_only by blast
  let ?c2 = "(conn_at w1 a)\<lparr>hbuf := hb, henc := he\<rparr>"
  have m2: "unat (maxFrameSize ?c2) = m" using m by (simp add: c1)
  from writeHeaderFrames_first[OF m(2) m2, of env "nextStreamID (conn_at w a)" "hasBodyOf req" hb 0]
  obtain c3 where c3: "writeHeaderFrames env (nextStreamID (conn_at w a)) (hasBodyOf req) hb True 0 ?c2
        = Some (length (chunksOf m hb), c3)" "closed c3 = closed ?c2"
    by auto
  have cl: "closed ?c2 = closed (conn_at w a)" by (simp add: c1)
  show ?thesis
    using nc c3 cl
    by (auto simp: do_send_def ns sid[unfolded sa] sa[symmetric] sid eh cp cn Let_def split: option.splits)
qed

lemma dataFrameWriter_Write_end:
  assumes "totalSize dw \<le> 0"
  shows "wire (conn_at (snd (dataFrameWriter_Write dw p i1 i2 w)) (dw_cc dw)) =
           wire (conn_at w (dw_cc dw)) @
           WriteData (ID (stream_at w (dw_cs dw))) True p # (if snd i1 = None then [Flush] else [])"
    and "snd i1 = None \<Longrightarrow> snd i2 = None \<Longrightarrow>
           fst (dataFrameWriter_Write dw p i1 i2 w) = (length p, None)"
  using assms
  by (auto simp: dataFrameWriter_Write_def Let_def frcall_def sticky_fold_keeps split: prod.splits)

subsection \<open>C10: a body writer that starts at or below zero\<close>

text \<open>
  C10: for a request with body (\<^verbatim>\<open>ContentLength > 0\<close> or method CONNECT) whose
  \<^verbatim>\<open>ContentLength\<close> is at most 0, on a connection that is not closed and has a
  positive \<^verbatim>\<open>maxFrameSize\<close>, \<^verbatim>\<open>do\<close> starts a body copier whose DATA writer has
  \<^verbatim>\<open>totalSize = ContentLength \<le> 0\<close>; so every chunk \<open>p\<close> has
  \<^verbatim>\<open>len(p) >= totalSize\<close>, and a write of \<open>p\<close> calls \<^verbatim>\<open>WriteData\<close> on the stream of the
  request with END_STREAM set and, when that call returns no error, flushes.
\<close>

theorem body_writer_first_write_ends_stream:
  assumes "hasBodyOf req" and "ReqContentLength req \<le> 0"
    and "\<not> closed (conn_at w a)" and "unat (maxFrameSize (conn_at w a)) = m" and "0 < m"
  shows "\<exists>r w'. do_send enc env req a w = Some (r, w') \<and>
           copiers w' = copiers w @
             [\<lparr>dw_cc = a, dw_cs = next_stream w, totalSize = ReqContentLength req\<rparr>] \<and>
           (\<forall>p i1 i2.
              int (length p) \<ge> ReqContentLength req \<and>
              wire (conn_at (snd (dataFrameWriter_Write
                      \<lparr>dw_cc = a, dw_cs = next_stream w, totalSize = ReqContentLength req\<rparr>
                      p i1 i2 w')) a) =
                wire (conn_at w' a) @
                WriteData (nextStreamID (conn_at w a)) True p #
                (if snd i1 = None then [Flush] else []))"
proof -
  from do_send_shape[OF assms(3-5), of enc env req] assms(1)
  obtain w' where w': "do_send enc env req a w =
             Some (case werr (conn_at w' a) of Some e \<Rightarrow> Inl (errResult e)
                                             | None \<Rightarrow> Inr (next_stream w), w')"
      "copiers w' = copiers w @
             [\<lparr>dw_cc = a, dw_cs = next_stream w, totalSize = ReqContentLength req\<rparr>]"
      "ID (stream_at w' (next_stream w)) = nextStreamID (conn_at w a)"
    by auto
  let ?dw = "\<lparr>dw_cc = a, dw_cs = next_stream w, totalSize = ReqContentLength req\<rparr>"
  have "\<And>p i1 i2. wire (conn_at (snd (dataFrameWriter_Write ?dw p i1 i2 w')) a) =
          wire (conn_at w' a) @
          WriteData (nextStreamID (conn_at w a)) True p # (if snd i1 = None then [Flush] else [])"
    using dataFrameWriter_Write_end(1)[of ?dw _ _ _ w'] assms(2) w'(3) by simp
  moreover have "\<And>p :: bytes. int (length p) \<ge> ReqContentLength req"
    using assms(2) by simp
  ultimately show ?thesis using w'(1,2) by blast
qed

theorem body_writer_first_write_ends_stream_witness:
  "\<exists>r w'. do_send byteEnc quietEnv connectRequest 0 (worldWith ''h:443'' (freshConn ''h:443''))
            = Some (r, w') \<and>
          copiers w' = [\<lparr>dw_cc = 0, dw_cs = 0, totalSize = 0\<rparr>] \<and>
          wire (conn_at (snd (dataFrameWriter_Write \<lparr>dw_cc = 0, dw_cs = 0, totalSize = 0\<rparr>
                  [1, 2, 3] ([], None) ([], None) w')) 0) =
            wire (conn_at w' 0) @ [WriteData 1 True [1, 2, 3], Flush]"
proof -
  let ?w = "worldWith ''h:443'' (freshConn ''h:443'')"
  have 1: "hasBodyOf connectRequest" by (simp add: hasBodyOf_def connectRequest_def)
  have 2: "ReqContentLength connectRequest \<le> 0" by (simp add: connectRequest_def)
  have 3: "\<not> closed (conn_at ?w 0)" by (simp add: freshConn_def)
  have 4: "unat (maxFrameSize (conn_at ?w 0)) = 16384" by (simp add: freshConn_def)
  have 5: "0 < (16384::nat)" by simp
  have 6: "ReqContentLength connectRequest = 0" "next_stream ?w = 0" "copiers ?w = []"
    "nextStreamID (conn_at ?w 0) = 1"
    by (simp_all add: connectRequest_def worldWith_def emptyWorld_def freshConn_def)
  note body_writer_first_write_ends_stream[OF 1 2 3 4 5, of byteEnc quietEnv, unfolded 6]
  then obtain r w' where
    a: "do_send byteEnc quietEnv connectRequest 0 ?w = Some (r, w')"
       "copiers w' = [] @ [\<lparr>dw_cc = 0, dw_cs = 0, totalSize = 0\<rparr>]"
    and b: "\<forall>p i1 i2. wire (conn_at (snd (dataFrameWriter_Write \<lparr>dw_cc = 0, dw_cs = 0, totalSize = 0\<rparr>
                      p i1 i2 w')) 0) =
                wire (conn_at w' 0) @ WriteData 1 True p # (if snd i1 = None then [Flush] else [])"
    by auto
  from b[rule_format, of "[1, 2, 3]" "([], None)" "([], None)"] a show ?thesis by simp
qed

subsection \<open>Helpers: the tunnel trace\<close>




subsection \<open>C5: the latched write error\<close>


subsection \<open>Helpers: the reader\<close>

lemma removeKeys_lookup:
  "(case removeKeys keys a m k of None \<Rightarrow> [] | Some vv \<Rightarrow> vv) =
     (if k \<in> set keys then filter (\<lambda>v. v \<noteq> a) (case m k of None \<Rightarrow> [] | Some vv \<Rightarrow> vv)
      else (case m k of None \<Rightarrow> [] | Some vv \<Rightarrow> vv))"
proof (induction keys arbitrary: m k)
  case Nil
  then show ?case by simp
next
  case (Cons key keys)
  show ?case
    by (cases "m key") (auto simp: Cons.IH filterOutClientConn_eq Let_def)
qed

lemma removeClientConn_connsOf:
  "connsOf (removeClientConn a w) k =
     (if k \<in> set (connKey (conn_at w a)) then filter (\<lambda>v. v \<noteq> a) (connsOf w k) else connsOf w k)"
  using removeKeys_lookup[of "connKey (conn_at w a)" a "conns w" k]
  by (simp add: removeClientConn_def connsOf_def emit_def)

lemma closePipes_trace:
  "\<forall>e\<in>set ar. pipe (stream_at w (snd e)) \<noteq> None \<Longrightarrow>
   trace (closePipes er ar w) = trace w @ map (\<lambda>pa. PipeWriterCloseWithError pa er) (pipesOf w ar) \<and>
   conns (closePipes er ar w) = conns w \<and> conn_at (closePipes er ar w) = conn_at w \<and>
   length (pipesOf w ar) = length ar"
proof (induction ar arbitrary: w)
  case Nil
  then show ?case by (simp add: pipesOf_def)
next
  case (Cons e ar)
  obtain sid sa where e: "e = (sid, sa)" by (cases e)
  with Cons(2) obtain pa where pa: "pipe (stream_at w sa) = Some pa" by auto
  let ?w1 = "emit [PipeWriterCloseWithError pa er] w"
  have s: "stream_at ?w1 = stream_at w" by (simp add: emit_def)
  have "\<forall>e\<in>set ar. pipe (stream_at ?w1 (snd e)) \<noteq> None" using Cons(2) s by simp
  from Cons(1)[OF this] s show ?case
    by (simp add: e pa pipesOf_def emit_def)
qed


lemma removeClientConn_trace: "trace (removeClientConn a w) = trace w @ [PoolRemove a]"
  by (simp add: removeClientConn_def emit_def)

lemma readLoop_exit_effects:
  assumes "\<forall>e\<in>set (activeRes rd). pipe (stream_at w (snd e)) \<noteq> None"
  shows "trace (readLoop_exit a rd w) =
           trace w @
           map (\<lambda>pa. PipeWriterCloseWithError pa
                  (if readerErr (conn_at w a) = Some EOF then Some ErrUnexpectedEOF
                   else readerErr (conn_at w a)))
               (pipesOf w (activeRes rd)) @
           [CloseReaderDone a, PoolRemove a]"
    and "connsOf (readLoop_exit a rd w) k =
           (if k \<in> set (connKey (conn_at w a)) then filter (\<lambda>v. v \<noteq> a) (connsOf w k)
            else connsOf w k)"
    and "length (pipesOf w (activeRes rd)) = length (activeRes rd)"
proof -
  let ?e = "if readerErr (conn_at w a) = Some EOF then Some ErrUnexpectedEOF
            else readerErr (conn_at w a)"
  let ?w1 = "closePipes ?e (activeRes rd) w"
  note cp = closePipes_trace[OF assms, of ?e]
  have ex: "readLoop_exit a rd w = removeClientConn a (emit [CloseReaderDone a] ?w1)"
    by (simp add: readLoop_exit_def readLoop_defers_def Let_def)
  show "trace (readLoop_exit a rd w) =
           trace w @ map (\<lambda>pa. PipeWriterCloseWithError pa ?e) (pipesOf w (activeRes rd)) @
           [CloseReaderDone a, PoolRemove a]"
    using cp by (simp add: ex removeClientConn_trace emit_def)
  show "connsOf (readLoop_exit a rd w) k =
           (if k \<in> set (connKey (conn_at w a)) then filter (\<lambda>v. v \<noteq> a) (connsOf w k)
            else connsOf w k)"
  proof -
    let ?w2 = "emit [CloseReaderDone a] ?w1"
    have 1: "connsOf ?w2 k = connsOf w k" using cp by (simp add: connsOf_def emit_def)
    have 2: "conn_at ?w2 = conn_at w" using cp by (simp add: emit_def)
    show ?thesis
      unfolding ex removeClientConn_connsOf 1 2 by (rule refl)
  qed
  show "length (pipesOf w (activeRes rd)) = length (activeRes rd)"
    using cp by simp
qed

lemma readLoop_body_violation:
  assumes "(isContinuation f \<and> StreamID f \<noteq> continueStreamID rd) \<or>
           (\<not> isContinuation f \<and> continueStreamID rd \<noteq> 0)"
  shows "readLoop_body L a (Inr f) flds rd w =
           Exit rd (updConn a (\<lambda>c. c\<lparr>readerErr := Some (ConnectionError ErrCodeProtocol)\<rparr>) w)"
  using assms by (auto simp: readLoop_body_def Let_def)

lemma updConn_readerErr [simp]:
  "readerErr (conn_at (updConn a (\<lambda>c. c\<lparr>readerErr := e\<rparr>) w) a) = e"
  "connKey (conn_at (updConn a (\<lambda>c. c\<lparr>readerErr := e\<rparr>) w) a) = connKey (conn_at w a)"
  "stream_at (updConn a g w) = stream_at w"
  "trace (updConn a g w) = trace w"
  "connsOf (updConn a g w) k = connsOf w k"
  by (simp_all add: updConn_def connsOf_def)

lemma tunnelWorld_facts:
  "pipe (stream_at tunnelWorld 0) = Some 0" "trace tunnelWorld = []"
  "connKey (conn_at tunnelWorld 0) = [''h:443'']" "connsOf tunnelWorld ''h:443'' = [0]"
  by (simp_all add: tunnelWorld_def worldWith_def emptyWorld_def freshConn_def connsOf_def)

lemma even_u32_mod: "(x mod 2 = 0) = even (x :: u32)"
  by (simp add: even_iff_mod_2_eq_zero)

lemma placedWorld_facts:
  "conn_at placedWorld 0 = (freshConn ''h:443'')\<lparr>nextStreamID := 3, streams := [1 \<mapsto> 0]\<rparr>"
  "stream_at placedWorld 0 = \<lparr>ID = 1, resc = [], pipe = None\<rparr>"
  "next_pipe placedWorld = 0"
  "trace placedWorld = []"
  "conns placedWorld = [''h:443'' \<mapsto> [0]]"
  by (simp_all add: placedWorld_def newStream_def Let_def worldWith_def emptyWorld_def freshConn_def)

subsection \<open>Helpers: what holds at the top of the reader's loop\<close>
















subsection \<open>C4: a contiguity violation ends the reader\<close>




subsection \<open>C9: frames on even stream ids\<close>

text \<open>
  C9, as the code has it: a frame with an even stream id that passes the contiguity
  check (a CONTINUATION on \<^verbatim>\<open>continueStreamID\<close>, or another frame while
  \<^verbatim>\<open>continueStreamID\<close> is 0) is dropped: the loop goes on with the reader and the world
  unchanged.
\<close>

theorem even_stream_frame_dropped:
  assumes "even (StreamID f)"
    and "isContinuation f \<longrightarrow> StreamID f = continueStreamID rd"
    and "\<not> isContinuation f \<longrightarrow> continueStreamID rd = 0"
  shows "readLoop_body L a (Inr f) flds rd w = Continue rd w"
  using assms by (auto simp: readLoop_body_def Let_def even_u32_mod)

theorem even_stream_frame_dropped_witness:
  "readLoop_body plainLib 0 (Inr (Frame 2 (Data True [1]))) [] idleReader tunnelWorld
     = Continue idleReader tunnelWorld"
  using even_stream_frame_dropped[of "Frame 2 (Data True [1])" idleReader plainLib 0 "[]" tunnelWorld]
  by (simp add: idleReader_def)

text \<open>
  C9 as the claim states it (every reader state) fails: the contiguity check comes
  first.  After a HEADERS frame without END_HEADERS on the registered stream 1, a DATA
  frame on stream 2 ends the reader with a protocol error, and the connection is
  removed from the pool.
\<close>

theorem even_stream_frame_terminates_reader:
  "even (StreamID (Frame 2 (Data False []))) \<and>
   (case readLoop plainLib 0
           [(Inr (Frame 1 (Headers False False [])), []), (Inr (Frame 2 (Data False [])), [])]
           placedWorld of
      Done w' \<Rightarrow>
        readerErr (conn_at w' 0) = Some (ConnectionError ErrCodeProtocol) \<and>
        trace w' = [CloseReaderDone 0, PoolRemove 0] \<and>
        connsOf w' ''h:443'' = []
    | _ \<Rightarrow> False)"
proof -
  let ?rd1 = "\<lparr>activeRes = [], continueStreamID = 1\<rparr>"
  obtain w1 where 1: "readLoop_body plainLib 0 (Inr (Frame 1 (Headers False False []))) []
                        \<lparr>activeRes = [], continueStreamID = 0\<rparr> placedWorld = Continue ?rd1 w1"
    and w1: "trace w1 = []" "conns w1 = [''h:443'' \<mapsto> [0]]" "connKey (conn_at w1 0) = [''h:443'']"
    by (simp add: readLoop_body_def handleFrame_def dispatch_def streamByID_def Let_def
        placedWorld_facts updConn_def freshConn_def newResponse_def)
  let ?w2 = "updConn 0 (\<lambda>c. c\<lparr>readerErr := Some (ConnectionError ErrCodeProtocol)\<rparr>) w1"
  have 2: "readLoop_body plainLib 0 (Inr (Frame 2 (Data False []))) [] ?rd1 w1 = Exit ?rd1 ?w2"
    by (rule readLoop_body_violation) simp
  have p: "\<forall>e\<in>set (activeRes ?rd1). pipe (stream_at ?w2 (snd e)) \<noteq> None" by simp
  note ex1 = readLoop_exit_effects(1)[OF p, of 0]
  note ex2 = readLoop_exit_effects(2)[OF p, of 0]
  have r: "readLoop plainLib 0
           [(Inr (Frame 1 (Headers False False [])), []), (Inr (Frame 2 (Data False [])), [])] placedWorld
        = Done (readLoop_exit 0 ?rd1 ?w2)"
    by (simp add: readLoop_def 1 2)
  have t: "trace (readLoop_exit 0 ?rd1 ?w2) = [CloseReaderDone 0, PoolRemove 0]"
    using ex1 by (simp add: w1 pipesOf_def)
  have c: "connsOf (readLoop_exit 0 ?rd1 ?w2) ''h:443'' = []"
  proof -
    have k: "connsOf w1 ''h:443'' = [0]" by (simp add: connsOf_def w1)
    show ?thesis using ex2[of "''h:443''"] by (simp add: w1 k)
  qed
  have e: "readerErr (conn_at (readLoop_exit 0 ?rd1 ?w2) 0) = Some (ConnectionError ErrCodeProtocol)"
    by (simp add: readLoop_exit_def readLoop_defers_def removeClientConn_def emit_def updConn_def)
  show ?thesis
    unfolding r using t c e by simp
qed

lemma dispatch_GoAway:
  "dispatch L a (Frame sid (GoAway code)) flds sa w =
     (updConn a (setGoAway (Frame sid (GoAway code))) (removeClientConn a w), False)"
  by (simp add: dispatch_def)

lemma setGoAway_refuses: "\<not> canTakeNewRequest (setGoAway f c)"
  by (simp add: canTakeNewRequest_def setGoAway_def)

subsection \<open>C1: GOAWAY\<close>

text \<open>
  C1 on the code: the \<^verbatim>\<open>switch\<close> has a GOAWAY case that removes the connection and
  records the frame (\<open>dispatch_GoAway\<close>, \<open>setGoAway_refuses\<close>), but a GOAWAY frame is
  sent on stream 0, and the test \<^verbatim>\<open>streamID%2 == 0\<close> before the switch drops it: the
  frame is not recorded, the connection stays in the pool and is selected again.
\<close>

theorem goaway_on_stream_zero_is_dropped:
  "readLoop_body plainLib 0 (Inr (Frame 0 (GoAway 0))) [] idleReader
       (worldWith ''h:443'' (freshConn ''h:443''))
     = Continue idleReader (worldWith ''h:443'' (freshConn ''h:443'')) \<and>
   goAway (conn_at (worldWith ''h:443'' (freshConn ''h:443'')) 0) = None \<and>
   canTakeNewRequest (conn_at (worldWith ''h:443'' (freshConn ''h:443'')) 0) \<and>
   getClientConn (Inl (OtherError ''dial'')) ''h'' ''443'' (worldWith ''h:443'' (freshConn ''h:443''))
     = (Inr 0, worldWith ''h:443'' (freshConn ''h:443''))"
proof -
  have 1: "readLoop_body plainLib 0 (Inr (Frame 0 (GoAway 0))) [] idleReader
       (worldWith ''h:443'' (freshConn ''h:443''))
     = Continue idleReader (worldWith ''h:443'' (freshConn ''h:443''))"
    by (simp add: readLoop_body_def idleReader_def)
  have 2: "canTakeNewRequest (conn_at (worldWith ''h:443'' (freshConn ''h:443'')) 0)"
    by (simp add: canTakeNewRequest_def freshConn_def)
  have 3: "goAway (conn_at (worldWith ''h:443'' (freshConn ''h:443'')) 0) = None"
    by (simp add: freshConn_def)
  have 4: "getClientConn (Inl (OtherError ''dial'')) ''h'' ''443'' (worldWith ''h:443'' (freshConn ''h:443''))
     = (Inr 0, worldWith ''h:443'' (freshConn ''h:443''))"
    using 2 by (simp add: getClientConn_def Let_def)
  show ?thesis using 1 2 3 4 by blast
qed

subsection \<open>Helpers: the round trip\<close>

declare RoundTrip_loop.simps [simp del]

lemma do_closed:
  "closed (conn_at w a) \<Longrightarrow> do enc env wait req a w = Returned (errResult errClientConnClosed, w)"
  by (simp add: do_def do_send_def)

lemma roundTrip_closed:
  "closed (conn_at w a) \<Longrightarrow> roundTrip enc env wait pint req a w = Returned (Inl errClientConnClosed, w)"
  by (simp add: roundTrip_def do_closed errResult_def)

lemma sticky_werr:
  "werr c \<noteq> Some errClientConnClosed \<Longrightarrow> snd (snd pr) \<noteq> Some errClientConnClosed \<Longrightarrow>
   werr (snd (stickyErrWriter_Write pr c)) \<noteq> Some errClientConnClosed"
  by (cases pr) (auto simp: stickyErrWriter_Write_def)

lemma sticky_fold_werr:
  "werr c \<noteq> Some errClientConnClosed \<Longrightarrow> \<forall>pr\<in>set ws. snd (snd pr) \<noteq> Some errClientConnClosed \<Longrightarrow>
   werr (foldl (\<lambda>c' pr. snd (stickyErrWriter_Write pr c')) c ws) \<noteq> Some errClientConnClosed"
  by (induction ws arbitrary: c) (simp_all add: sticky_werr)

lemma frcall_werr:
  "werr c \<noteq> Some errClientConnClosed \<Longrightarrow> honestIO i \<Longrightarrow>
   werr (snd (frcall op i c)) \<noteq> Some errClientConnClosed"
  by (simp add: frcall_def honestIO_def sticky_fold_werr)

lemma writeHeaderFrames_werr:
  assumes "writeHeaderFrames env sid hb hdrs first k c = Some y"
  shows "(\<forall>j. honestIO (env j)) \<longrightarrow> werr c \<noteq> Some errClientConnClosed \<longrightarrow>
         werr (snd y) \<noteq> Some errClientConnClosed"
proof (rule writeHeaderFrames.raw_induct
    [where P = "\<lambda>env sid hb hdrs first k c y. (\<forall>j. honestIO (env j)) \<longrightarrow>
         werr c \<noteq> Some errClientConnClosed \<longrightarrow> werr (snd y) \<noteq> Some errClientConnClosed", OF _ assms])
  fix f :: "(nat \<Rightarrow> io) \<Rightarrow> u32 \<Rightarrow> bool \<Rightarrow> bytes \<Rightarrow> bool \<Rightarrow> nat \<Rightarrow> clientConn \<Rightarrow> (nat \<times> clientConn) option"
  fix env sid hb hdrs first k c y
  assume IH: "\<And>env sid hb hdrs first k c y.
                f env sid hb hdrs first k c = Some y \<Longrightarrow>
                (\<forall>j. honestIO (env j)) \<longrightarrow> werr c \<noteq> Some errClientConnClosed \<longrightarrow>
                werr (snd y) \<noteq> Some errClientConnClosed"
  assume step: "(if 0 < length hdrs
          then let chunk = if unat (maxFrameSize c) < length hdrs
                           then take (unat (maxFrameSize c)) hdrs else hdrs;
                   hdrs' = drop (length chunk) hdrs;
                   endHeaders = length hdrs' = 0
               in if first
                  then f env sid hb hdrs' False (Suc k)
                        (snd (frcall (WriteHeaders sid chunk (\<not> hb) endHeaders) (env k) c))
                  else f env sid hb hdrs' first (Suc k)
                        (snd (frcall (WriteContinuation sid endHeaders chunk) (env k) c))
          else Some (k, c)) = Some y"
  show "(\<forall>j. honestIO (env j)) \<longrightarrow> werr c \<noteq> Some errClientConnClosed \<longrightarrow>
        werr (snd y) \<noteq> Some errClientConnClosed"
  proof (intro impI)
    assume h: "\<forall>j. honestIO (env j)" and w: "werr c \<noteq> Some errClientConnClosed"
    show "werr (snd y) \<noteq> Some errClientConnClosed"
    proof (cases "0 < length hdrs")
      case False
      with step w show ?thesis by auto
    next
      case True
      then obtain op hdrs' first' where
        "f env sid hb hdrs' first' (Suc k) (snd (frcall op (env k) c)) = Some y"
        using step by (cases first) (auto simp: Let_def simp del: frcall_keeps)
      from IH[OF this] h frcall_werr[OF w, of "env k" op] show ?thesis by blast
    qed
  qed
qed

lemma sentinelFree_conn:
  assumes "sentinelFree w" and "werr c \<noteq> Some errClientConnClosed"
  shows "sentinelFree (w\<lparr>conn_at := (conn_at w)(a := c)\<rparr>)"
  using assms by (simp add: sentinelFree_def)

lemma foldl_applySetting_werr: "werr (foldl applySetting c ss) = werr c"
proof (induction ss arbitrary: c)
  case Nil
  then show ?case by simp
next
  case (Cons s ss)
  obtain k v where "s = (k, v)" by (cases s)
  then show ?case using Cons by (cases k) simp_all
qed

lemma newConn_werr: "werr (foldl applySetting (freshConn key) ss) = None"
  by (simp add: foldl_applySetting_werr freshConn_def)

lemma getClientConn_sentinelFree:
  assumes "sentinelFree w" and "getClientConn d host port w = (x, w')"
  shows "sentinelFree w'"
  using assms
  by (auto simp: getClientConn_def Let_def newClientConn_def sentinelFree_def
      newConn_werr split: option.splits sum.splits if_splits)

lemma newStream_sentinelFree:
  assumes "sentinelFree w" and "newStream a w = (sa, w1)"
  shows "sentinelFree w1" and "werr (conn_at w1 a) = werr (conn_at w a)"
  using assms by (auto simp: newStream_def Let_def sentinelFree_def split: if_splits)

lemma sentinelFree_copiers: "sentinelFree (w\<lparr>copiers := cs\<rparr>) = sentinelFree w"
  by (simp add: sentinelFree_def)

lemma do_send_sentinelFree:
  assumes sf: "sentinelFree w" and h: "\<forall>k. honestIO (env k)"
    and ds: "do_send enc env req a w = Some (x, w')"
  shows "sentinelFree w'"
    and "\<not> closed (conn_at w a) \<Longrightarrow> x = Inl re \<Longrightarrow> err re \<noteq> Some errClientConnClosed"
proof -
  have "sentinelFree w' \<and> (\<not> closed (conn_at w a) \<longrightarrow> (\<forall>re. x = Inl re \<longrightarrow> err re \<noteq> Some errClientConnClosed))"
  proof (cases "closed (conn_at w a)")
    case True
    with ds sf show ?thesis by (simp add: do_send_def)
  next
    case False
    obtain sa w1 where ns: "newStream a w = (sa, w1)" by (cases "newStream a w")
    note n1 = newStream_sentinelFree[OF sf ns]
    obtain hb he where eh: "encodeHeaders enc req (conn_at w1 a) = (hb, (conn_at w1 a)\<lparr>hbuf := hb, henc := he\<rparr>)"
      using encodeHeaders_only by blast
    let ?c2 = "(conn_at w1 a)\<lparr>hbuf := hb, henc := he\<rparr>"
    from ds False ns eh obtain k c3 where
      wf: "writeHeaderFrames env (ID (stream_at w1 sa)) (hasBodyOf req) hb True 0 ?c2 = Some (k, c3)"
      by (auto simp: do_send_def Let_def split: option.splits)
    have w2: "werr ?c2 \<noteq> Some errClientConnClosed"
      using n1 sf by (simp add: sentinelFree_def)
    from writeHeaderFrames_werr[OF wf] h w2 have w3: "werr c3 \<noteq> Some errClientConnClosed" by simp
    let ?c4 = "snd (frcall Flush (env k) c3)"
    have w4: "werr ?c4 \<noteq> Some errClientConnClosed"
      using frcall_werr[OF w3, of "env k" Flush] h by simp
    let ?w2 = "w1\<lparr>conn_at := (conn_at w1)(a := ?c4)\<rparr>"
    have s2: "sentinelFree ?w2" by (rule sentinelFree_conn[OF n1(1) w4])
    from ds False ns eh wf have
      w': "w' = (if hasBodyOf req
                 then ?w2\<lparr>copiers := copiers ?w2 @
                        [\<lparr>dw_cc = a, dw_cs = sa, totalSize = ReqContentLength req\<rparr>]\<rparr>
                 else ?w2)"
      and x: "x = (case werr ?c4 of Some e \<Rightarrow> Inl (errResult e) | None \<Rightarrow> Inr sa)"
      by (auto simp: do_send_def Let_def split: option.splits)
    have "sentinelFree w'" unfolding w' using s2 by (simp add: sentinelFree_copiers)
    moreover have "\<forall>re. x = Inl re \<longrightarrow> err re \<noteq> Some errClientConnClosed"
      unfolding x using w4 by (auto simp: errResult_def split: option.splits)
    ultimately show ?thesis by blast
  qed
  then show "sentinelFree w'"
    and "\<not> closed (conn_at w a) \<Longrightarrow> x = Inl re \<Longrightarrow> err re \<noteq> Some errClientConnClosed"
    by blast+
qed

lemma do_sentinelFree:
  assumes sf: "sentinelFree w" and h: "\<forall>k. honestIO (env k)"
    and wt: "\<forall>w. sentinelFree w \<longrightarrow> sentinelFree (wait w)"
    and d: "do enc env wait req a w = Returned (re, w')"
  shows "sentinelFree w'"
    and "\<not> closed (conn_at w a) \<Longrightarrow> err re \<noteq> Some errClientConnClosed"
proof -
  from d obtain x w1 where ds: "do_send enc env req a w = Some (x, w1)"
    by (auto simp: do_def split: option.splits)
  note s1 = do_send_sentinelFree[OF sf h ds]
  have "sentinelFree w' \<and> (\<not> closed (conn_at w a) \<longrightarrow> err re \<noteq> Some errClientConnClosed)"
  proof (cases x)
    case (Inl re0)
    with d ds have "re = re0" "w' = w1" by (simp_all add: do_def)
    with s1 Inl show ?thesis by blast
  next
    case (Inr sa)
    let ?w2 = "wait w1"
    have s2: "sentinelFree ?w2" using wt s1(1) by blast
    from d ds Inr obtain rest where
      r: "resc (stream_at ?w2 sa) = re # rest"
      and w': "w' = ?w2\<lparr>stream_at := (stream_at ?w2)(sa := (stream_at ?w2 sa)\<lparr>resc := rest\<rparr>)\<rparr>"
      by (auto simp: do_def Let_def split: list.splits)
    have all: "\<forall>x\<in>set (re # rest). err x \<noteq> Some errClientConnClosed"
      using s2 r[symmetric] unfolding sentinelFree_def by metis
    then have "err re \<noteq> Some errClientConnClosed" by simp
    moreover have "sentinelFree w'"
      unfolding w' using s2 all by (auto simp: sentinelFree_def split: if_splits)
    ultimately show ?thesis by blast
  qed
  then show "sentinelFree w'"
    and "\<not> closed (conn_at w a) \<Longrightarrow> err re \<noteq> Some errClientConnClosed"
    by blast+
qed

lemma roundTrip_sentinelFree:
  assumes sf: "sentinelFree w" and h: "\<forall>k. honestIO (env k)"
    and wt: "\<forall>w. sentinelFree w \<longrightarrow> sentinelFree (wait w)"
    and rt: "roundTrip enc env wait pint req a w = Returned (r, w')"
  shows "sentinelFree w'"
    and "r = Inl errClientConnClosed \<Longrightarrow> closed (conn_at w a)"
proof -
  from rt obtain re where d: "do enc env wait req a w = Returned (re, w')"
    and r: "err re = Some errClientConnClosed \<longleftrightarrow> r = Inl errClientConnClosed"
    by (auto simp: roundTrip_def split: ending.splits option.splits list.splits)
  note s = do_sentinelFree[OF sf h wt d]
  show "sentinelFree w'" by (rule s(1))
  show "r = Inl errClientConnClosed \<Longrightarrow> closed (conn_at w a)"
    using s(2) r by blast
qed

lemma idle_closed_selected:
  "getClientConn (Inl (OtherError ''dial'')) ''h'' ''443''
      (closeIfIdle 0 (worldWith ''h:443'' (freshConn ''h:443'')))
    = (Inr 0, closeIfIdle 0 (worldWith ''h:443'' (freshConn ''h:443'')))"
  "closed (conn_at (closeIfIdle 0 (worldWith ''h:443'' (freshConn ''h:443''))) 0)"
proof -
  let ?w = "closeIfIdle 0 (worldWith ''h:443'' (freshConn ''h:443''))"
  have c: "conn_at ?w 0 = (freshConn ''h:443'')\<lparr>closed := True, tconnClosed := True\<rparr>"
    by (simp add: closeIfIdle_fresh)
  have k: "connsOf ?w ''h:443'' = [0]"
    by (simp add: closeIfIdle_fresh connsOf_def)
  have t: "canTakeNewRequest (conn_at ?w 0)"
    unfolding c by (simp add: canTakeNewRequest_def freshConn_def)
  show "closed (conn_at ?w 0)"
    unfolding c by simp
  show "getClientConn (Inl (OtherError ''dial'')) ''h'' ''443'' ?w = (Inr 0, ?w)"
    using t by (simp add: getClientConn_def Let_def k)
qed

lemma stillAttempt_honest: "honest (stillAttempt i)"
  by (simp add: honest_def stillAttempt_def honestIO_def quietEnv_def)

lemma idle_closed_sentinelFree:
  "sentinelFree (closeIfIdle 0 (worldWith ''h:443'' (freshConn ''h:443'')))"
proof -
  have "sentinelFree (worldWith ''h:443'' (freshConn ''h:443''))"
    by (simp add: sentinelFree_def worldWith_def emptyWorld_def emptyStream_def freshConn_def)
  then show ?thesis
    unfolding closeIfIdle_fresh by (simp add: sentinelFree_def emit_def updConn_def freshConn_def)
qed

subsection \<open>Helpers: the attempts of a round trip\<close>

lemma retryOutcome_Nil:
  "retryOutcome enc pint E req host port i w [] r w' =
     (if 3 - i = 0 then r = Inl errMaxRetry \<and> w' = w
      else (\<exists>e. getClientConn (at_dial (E i)) host port (at_before (E i) w) = (Inl e, w') \<and> r = Inl e))"
  by (auto simp: retryOutcome_def)

lemma attemptsRun_Cons_sel_fails:
  "getClientConn (at_dial (E i)) host port (at_before (E i) w) = (Inl e, w1) \<Longrightarrow>
   attemptsRun enc pint E req host port i w (t # ts) = None"
  by simp

lemma attemptsRun_Cons_no_return:
  "getClientConn (at_dial (E i)) host port (at_before (E i) w) = (Inr a, w1) \<Longrightarrow>
   \<forall>x. roundTrip enc (at_io (E i)) (at_wait (E i)) pint req a w1 \<noteq> Returned x \<Longrightarrow>
   attemptsRun enc pint E req host port i w (t # ts) = None"
  by (auto split: ending.splits)

lemma attemptsRun_Cons_returns:
  "getClientConn (at_dial (E i)) host port (at_before (E i) w) = (Inr a, w1) \<Longrightarrow>
   roundTrip enc (at_io (E i)) (at_wait (E i)) pint req a w1 = Returned (r2, w2) \<Longrightarrow>
   attemptsRun enc pint E req host port i w (t # ts) =
     (if t = (a, closed (conn_at w1 a), r2) then attemptsRun enc pint E req host port (Suc i) w2 ts
      else None)"
  by simp

lemma retryOutcome_Cons_retry:
  assumes g: "getClientConn (at_dial (E i)) host port (at_before (E i) w) = (Inr a, w1)"
    and rt: "roundTrip enc (at_io (E i)) (at_wait (E i)) pint req a w1 = Returned (r2, w2)"
    and c: "r2 = Inl errClientConnClosed" and i: "i < 3"
  shows "retryOutcome enc pint E req host port i w new r w' =
           (\<exists>new'. new = (a, closed (conn_at w1 a), r2) # new' \<and>
                   retryOutcome enc pint E req host port (Suc i) w2 new' r w')"
proof (cases new)
  case Nil
  with g i show ?thesis by (simp add: retryOutcome_Nil)
next
  case (Cons t ts)
  let ?t0 = "(a, closed (conn_at w1 a), r2)"
  have f0: "failsClosed ?t0" using c by (simp add: failsClosed_def)
  show ?thesis
  proof (cases "t = ?t0")
    case False
    then show ?thesis
      using Cons attemptsRun_Cons_returns[where E = E and i = i and t = t and ts = ts, OF g rt]
      by (auto simp: retryOutcome_def simp del: attemptsRun.simps)
  next
    case True
    have ar: "attemptsRun enc pint E req host port i w (?t0 # ts)
                = attemptsRun enc pint E req host port (Suc i) w2 ts"
      using attemptsRun_Cons_returns[where E = E and i = i and t = ?t0 and ts = ts, OF g rt] by simp
    have l: "(length (?t0 # ts) \<le> 3 - i) = (length ts \<le> 3 - Suc i)"
            "(length (?t0 # ts) = 3 - i) = (length ts = 3 - Suc i)"
      using i by auto
    have b: "(\<forall>t\<in>set (butlast (?t0 # ts)). failsClosed t) = (\<forall>t\<in>set (butlast ts). failsClosed t)"
      using f0 by (cases ts) auto
    have la: "(?t0 # ts \<noteq> [] \<and> \<not> failsClosed (last (?t0 # ts))) = (ts \<noteq> [] \<and> \<not> failsClosed (last ts))"
      using f0 by (cases ts) auto
    have ls: "ts \<noteq> [] \<Longrightarrow> last (?t0 # ts) = last ts" by simp
    have "retryOutcome enc pint E req host port i w (?t0 # ts) r w'
            = retryOutcome enc pint E req host port (Suc i) w2 ts r w'"
      unfolding retryOutcome_def ar l b la
      by (cases "ts = []") (simp_all del: attemptsRun.simps)
    with True Cons show ?thesis by auto
  qed
qed

lemma retryOutcome_Cons_stop:
  assumes g: "getClientConn (at_dial (E i)) host port (at_before (E i) w) = (Inr a, w1)"
    and rt: "roundTrip enc (at_io (E i)) (at_wait (E i)) pint req a w1 = Returned (r2, w2)"
    and c: "r2 \<noteq> Inl errClientConnClosed" and i: "i < 3"
  shows "retryOutcome enc pint E req host port i w new r w' =
           (new = [(a, closed (conn_at w1 a), r2)] \<and> r = r2 \<and> w' = w2)"
proof (cases new)
  case Nil
  with g i show ?thesis by (simp add: retryOutcome_Nil)
next
  case (Cons t ts)
  let ?t0 = "(a, closed (conn_at w1 a), r2)"
  have f0: "\<not> failsClosed ?t0" using c by (simp add: failsClosed_def)
  show ?thesis
  proof (cases "t = ?t0")
    case False
    then show ?thesis
      using Cons attemptsRun_Cons_returns[where E = E and i = i and t = t and ts = ts, OF g rt]
      by (auto simp: retryOutcome_def simp del: attemptsRun.simps)
  next
    case True
    show ?thesis
    proof (cases ts)
      case Nil
      with True Cons f0 i attemptsRun_Cons_returns[where E = E and i = i and t = ?t0 and ts = "[]", OF g rt] show ?thesis
        by (auto simp: retryOutcome_def attemptsRun.simps(1) simp del: attemptsRun.simps(2))
    next
      case (Cons t1 ts1)
      with True \<open>new = t # ts\<close> f0 show ?thesis
        by (auto simp: retryOutcome_def simp del: attemptsRun.simps)
    qed
  qed
qed

lemma retryOutcome_no_attempt:
  assumes g: "getClientConn (at_dial (E i)) host port (at_before (E i) w) = (Inr a, w1)"
    and rt: "\<forall>x. roundTrip enc (at_io (E i)) (at_wait (E i)) pint req a w1 \<noteq> Returned x"
    and i: "i < 3"
  shows "\<not> retryOutcome enc pint E req host port i w new r w'"
proof (cases new)
  case Nil
  with g i show ?thesis by (simp add: retryOutcome_Nil)
next
  case (Cons t ts)
  with attemptsRun_Cons_no_return[where E = E and i = i and t = t and ts = ts, OF g rt] show ?thesis
    by (simp add: retryOutcome_def del: attemptsRun.simps)
qed

lemma retryOutcome_sel_fails:
  assumes g: "getClientConn (at_dial (E i)) host port (at_before (E i) w) = (Inl e, w1)"
    and i: "i < 3"
  shows "retryOutcome enc pint E req host port i w new r w' = (new = [] \<and> r = Inl e \<and> w' = w1)"
proof (cases new)
  case Nil
  with g i show ?thesis by (auto simp: retryOutcome_Nil)
next
  case (Cons t ts)
  with attemptsRun_Cons_sel_fails[where E = E and i = i and t = t and ts = ts and enc = enc and pint = pint and req = req, OF g] show ?thesis
    by (simp add: retryOutcome_def del: attemptsRun.simps)
qed


lemma RoundTrip_loop_iff:
  "i \<le> 3 \<Longrightarrow>
   (RoundTrip_loop enc pint E req host port i tr w = Returned (r, w', tr')) =
     (\<exists>new. tr' = tr @ new \<and> retryOutcome enc pint E req host port i w new r w')"
proof (induction enc pint E req host port i tr w rule: RoundTrip_loop.induct)
  case (1 enc pint E req host port i tried w)
  show ?case
  proof (cases "i < 3")
    case False
    with 1(2) have i: "i = 3" by simp
    have "RoundTrip_loop enc pint E req host port i tried w = Returned (Inl errMaxRetry, w, tried)"
      using i by (simp add: RoundTrip_loop.simps maxRetryRequest_def)
    moreover have "\<And>new. retryOutcome enc pint E req host port i w new r w'
                     = (new = [] \<and> r = Inl errMaxRetry \<and> w' = w)"
      using i by (auto simp: retryOutcome_def)
    ultimately show ?thesis by auto
  next
    case True
    then have m: "i < maxRetryRequest" by (simp add: maxRetryRequest_def)
    obtain x w1 where g: "getClientConn (at_dial (E i)) host port (at_before (E i) w) = (x, w1)"
      by (cases "getClientConn (at_dial (E i)) host port (at_before (E i) w)")
    show ?thesis
    proof (cases x)
      case (Inl e)
      have "RoundTrip_loop enc pint E req host port i tried w = Returned (Inl e, w1, tried)"
        using m g Inl by (simp add: RoundTrip_loop.simps)
      then show ?thesis
        using retryOutcome_sel_fails[where E = E and i = i, OF g[unfolded Inl] True] by auto
    next
      case (Inr a)
      note g' = g[unfolded Inr]
      show ?thesis
      proof (cases "roundTrip enc (at_io (E i)) (at_wait (E i)) pint req a w1")
        case Stuck
        then have "RoundTrip_loop enc pint E req host port i tried w = Stuck"
          using m g' by (simp add: RoundTrip_loop.simps)
        moreover have "\<And>new. \<not> retryOutcome enc pint E req host port i w new r w'"
          by (rule retryOutcome_no_attempt[where E = E and i = i, OF g' _ True]) (simp add: Stuck)
        ultimately show ?thesis by simp
      next
        case Panicked
        then have "RoundTrip_loop enc pint E req host port i tried w = Panicked"
          using m g' by (simp add: RoundTrip_loop.simps)
        moreover have "\<And>new. \<not> retryOutcome enc pint E req host port i w new r w'"
          by (rule retryOutcome_no_attempt[where E = E and i = i, OF g' _ True]) (simp add: Panicked)
        ultimately show ?thesis by simp
      next
        case (Returned y)
        obtain r2 w2 where y: "y = (r2, w2)" by (cases y)
        note rt = Returned[unfolded y]
        let ?t = "(a, closed (conn_at w1 a), r2)"
        show ?thesis
        proof (cases "r2 = Inl errClientConnClosed")
          case c: True
          have sr: "shouldRetryRequest (case r2 of Inl e \<Rightarrow> Some e | Inr x \<Rightarrow> None)"
            using c by (simp add: shouldRetryRequest_def)
          have "RoundTrip_loop enc pint E req host port i tried w
                  = RoundTrip_loop enc pint E req host port (Suc i) (tried @ [?t]) w2"
            using m g' rt sr by (subst RoundTrip_loop.simps) (simp add: Let_def)
          moreover have "(RoundTrip_loop enc pint E req host port (Suc i) (tried @ [?t]) w2 = Returned (r, w', tr'))
                   = (\<exists>new. tr' = (tried @ [?t]) @ new \<and> retryOutcome enc pint E req host port (Suc i) w2 new r w')"
            using 1(1)[OF m g[symmetric] Inr Returned y[symmetric] refl refl] sr m True by simp
          ultimately show ?thesis
            using retryOutcome_Cons_retry[where E = E and i = i, OF g' rt c True] by auto
        next
          case c: False
          have sr: "\<not> shouldRetryRequest (case r2 of Inl e \<Rightarrow> Some e | Inr x \<Rightarrow> None)"
            using c by (cases r2) (auto simp: shouldRetryRequest_def)
          have "RoundTrip_loop enc pint E req host port i tried w = Returned (r2, w2, tried @ [?t])"
            using m g' rt sr by (subst RoundTrip_loop.simps) (simp add: Let_def)
          then show ?thesis
            using retryOutcome_Cons_stop[where E = E and i = i, OF g' rt c True] by auto
        qed
      qed
    qed
  qed
qed


lemma attemptsRun_Cons_D:
  assumes "attemptsRun enc pint E req host port i w (t # ts) = Some wl"
  obtains a w1 r2 w2 where
    "getClientConn (at_dial (E i)) host port (at_before (E i) w) = (Inr a, w1)"
    "roundTrip enc (at_io (E i)) (at_wait (E i)) pint req a w1 = Returned (r2, w2)"
    "t = (a, closed (conn_at w1 a), r2)"
    "attemptsRun enc pint E req host port (Suc i) w2 ts = Some wl"
  using assms
  by (auto split: prod.splits sum.splits ending.splits if_splits)

lemma attemptsRun_closed_fails:
  "attemptsRun enc pint E req host port i w ts = Some wl \<Longrightarrow>
   \<forall>t\<in>set ts. fst (snd t) \<longrightarrow> failsClosed t"
proof (induction ts arbitrary: i w)
  case Nil
  show ?case by simp
next
  case (Cons t ts)
  from Cons.prems obtain a w1 r2 w2 where
    rt: "roundTrip enc (at_io (E i)) (at_wait (E i)) pint req a w1 = Returned (r2, w2)"
    and t: "t = (a, closed (conn_at w1 a), r2)"
    and rest: "attemptsRun enc pint E req host port (Suc i) w2 ts = Some wl"
    by (rule attemptsRun_Cons_D)
  have "fst (snd t) \<longrightarrow> failsClosed t"
    using rt t by (auto simp: roundTrip_closed failsClosed_def)
  with Cons.IH[OF rest] show ?case by simp
qed

lemma attemptsRun_fails_closed:
  "attemptsRun enc pint E req host port i w ts = Some wl \<Longrightarrow>
   sentinelFree w \<Longrightarrow> \<forall>j. honest (E j) \<Longrightarrow>
   \<forall>t\<in>set ts. failsClosed t \<longrightarrow> fst (snd t)"
proof (induction ts arbitrary: i w)
  case Nil
  show ?case by simp
next
  case (Cons t ts)
  from Cons.prems(1) obtain a w1 r2 w2 where
    g: "getClientConn (at_dial (E i)) host port (at_before (E i) w) = (Inr a, w1)"
    and rt: "roundTrip enc (at_io (E i)) (at_wait (E i)) pint req a w1 = Returned (r2, w2)"
    and t: "t = (a, closed (conn_at w1 a), r2)"
    and rest: "attemptsRun enc pint E req host port (Suc i) w2 ts = Some wl"
    by (rule attemptsRun_Cons_D)
  have hi: "honest (E i)" using Cons.prems(3) by blast
  have s0: "sentinelFree (at_before (E i) w)" using hi Cons.prems(2) by (simp add: honest_def)
  note s1 = getClientConn_sentinelFree[OF s0 g]
  have h1: "\<forall>k. honestIO (at_io (E i) k)" using hi by (simp add: honest_def)
  have h2: "\<forall>w. sentinelFree w \<longrightarrow> sentinelFree (at_wait (E i) w)" using hi by (simp add: honest_def)
  note s2 = roundTrip_sentinelFree[OF s1 h1 h2 rt]
  have "failsClosed t \<longrightarrow> fst (snd t)" using s2(2) t by (simp add: failsClosed_def)
  with Cons.IH[OF rest s2(1) Cons.prems(3)] show ?case by simp
qed

subsection \<open>C8: the retry loop\<close>

text \<open>
  C8: the retry loop of \<^verbatim>\<open>RoundTrip\<close> returns \<open>r\<close> in world \<open>w'\<close> after the attempts
  \<open>tried\<close> exactly when: \<open>tried\<close> has at most 3 entries; it is the record of the calls
  themselves, each entry being the connection that \<^verbatim>\<open>getClientConn\<close> returned, its
  \<^verbatim>\<open>closed\<close> flag when the request was placed, and the result of \<^verbatim>\<open>cc.roundTrip\<close> on it
  in the world the previous attempt left; every attempt but the last failed with
  \<^verbatim>\<open>errClientConnClosed\<close>; and the result is that of the last attempt if it did not fail
  with it (a response, or another error, not retried), the error of the exhausted
  retries after three failures with it, and otherwise the error that \<^verbatim>\<open>getClientConn\<close>
  returned on the next selection, in the world that selection left.  In such a record an
  attempt on a connection whose \<^verbatim>\<open>closed\<close> flag was set failed with
  \<^verbatim>\<open>errClientConnClosed\<close>; and when the surroundings never hand \<^verbatim>\<open>errClientConnClosed\<close>
  to the transport, an attempt fails with it only on a connection whose \<^verbatim>\<open>closed\<close> flag
  was set.
\<close>

theorem RoundTrip_retries_on_conn_closed:
  "(RoundTrip_loop enc pint E req host port 0 [] w = Returned (r, w', tried)) =
     (length tried \<le> 3 \<and>
      (\<forall>t\<in>set (butlast tried). failsClosed t) \<and>
      (\<exists>wl. attemptsRun enc pint E req host port 0 w tried = Some wl \<and>
         (if tried \<noteq> [] \<and> \<not> failsClosed (last tried) then r = snd (snd (last tried)) \<and> w' = wl
          else if length tried = 3 then r = Inl errMaxRetry \<and> w' = wl
          else (\<exists>e. getClientConn (at_dial (E (length tried))) host port
                       (at_before (E (length tried)) wl) = (Inl e, w') \<and>
                     r = Inl e)))) \<and>
   (attemptsRun enc pint E req host port 0 w tried = Some wl \<longrightarrow>
      (\<forall>t\<in>set tried. fst (snd t) \<longrightarrow> failsClosed t) \<and>
      (sentinelFree w \<and> (\<forall>j. honest (E j)) \<longrightarrow> (\<forall>t\<in>set tried. failsClosed t \<longrightarrow> fst (snd t))))"
proof -
  have "(RoundTrip_loop enc pint E req host port 0 [] w = Returned (r, w', tried)) =
          retryOutcome enc pint E req host port 0 w tried r w'"
    using RoundTrip_loop_iff[of 0 enc pint E req host port "[]" w r w' tried] by auto
  then show ?thesis
    using attemptsRun_closed_fails[of enc pint E req host port 0 w tried wl]
          attemptsRun_fails_closed[of enc pint E req host port 0 w tried wl]
    unfolding retryOutcome_def by simp
qed


theorem RoundTrip_retries_on_conn_closed_witness:
  "RoundTrip_loop byteEnc (\<lambda>s. 0) stillAttempt exampleRequest ''h'' ''443'' 0 []
       (closeIfIdle 0 (worldWith ''h:443'' (freshConn ''h:443'')))
     = Returned (Inl errMaxRetry, closeIfIdle 0 (worldWith ''h:443'' (freshConn ''h:443'')),
         [(0, True, Inl errClientConnClosed), (0, True, Inl errClientConnClosed),
          (0, True, Inl errClientConnClosed)]) \<and>
   attemptsRun byteEnc (\<lambda>s. 0) stillAttempt exampleRequest ''h'' ''443'' 0
       (closeIfIdle 0 (worldWith ''h:443'' (freshConn ''h:443'')))
       [(0, True, Inl errClientConnClosed), (0, True, Inl errClientConnClosed),
        (0, True, Inl errClientConnClosed)]
     = Some (closeIfIdle 0 (worldWith ''h:443'' (freshConn ''h:443''))) \<and>
   sentinelFree (closeIfIdle 0 (worldWith ''h:443'' (freshConn ''h:443''))) \<and>
   honest (stillAttempt 0) \<and> honest (stillAttempt 1) \<and> honest (stillAttempt 2)"
proof -
  let ?w = "closeIfIdle 0 (worldWith ''h:443'' (freshConn ''h:443''))"
  let ?t = "(0::nat, True, Inl errClientConnClosed :: error + response)"
  have b: "\<And>i. at_before (stillAttempt i) ?w = ?w"
          "\<And>i. at_dial (stillAttempt i) = Inl (OtherError ''dial'')"
    by (simp_all add: stillAttempt_def)
  have ar: "attemptsRun byteEnc (\<lambda>s. 0) stillAttempt exampleRequest ''h'' ''443'' 0 ?w [?t, ?t, ?t] = Some ?w"
    by (simp add: b idle_closed_selected roundTrip_closed[OF idle_closed_selected(2)])
  have f: "failsClosed ?t" by (simp add: failsClosed_def)
  from RoundTrip_retries_on_conn_closed[of byteEnc "\<lambda>s. 0" stillAttempt exampleRequest "''h''" "''443''"
      ?w "Inl errMaxRetry" ?w "[?t, ?t, ?t]" ?w, THEN conjunct1]
  have "RoundTrip_loop byteEnc (\<lambda>s. 0) stillAttempt exampleRequest ''h'' ''443'' 0 [] ?w
          = Returned (Inl errMaxRetry, ?w, [?t, ?t, ?t])"
    using ar f by simp
  then show ?thesis
    using ar stillAttempt_honest idle_closed_sentinelFree by simp
qed


end
